theory Spec2Isabelle
  imports Main
begin

section \<open>Data model (src/lib/types.ts)\<close>

datatype SyncMode = EntryDir | EntryFile | Copy

datatype DirLinkType = Junction | Dir

text \<open>
  A \<open>SyncIndex\<close> is a plain JavaScript object from item id to target path. It is modelled
  as the list of its own entries in the order \<open>Object.keys\<close> / \<open>Object.entries\<close>
  enumerate them: the scans of \<open>buildNewIndex\<close> and of the executors stop at the first
  entry with a given path, so the order is observable.
\<close>

type_synonym SyncIndex = "(string \<times> string) list"

record SyncItem =
  item_id :: string
  name :: string
  ext :: string
  filePath :: string

datatype SkipReason = MissingFile | ErrorReason

datatype fs_error = ENOENT | EPERM | EACCES | EOTHER

record SkippedItem =
  skippedItem :: SyncItem
  reason :: SkipReason
  skipError :: "fs_error option"

record Creation =
  item :: SyncItem
  targetPath :: string

record SyncPlan =
  toCreate :: "Creation list"
  toRemove :: "string list"
  plan_skipped :: "SkippedItem list"

record ErrorEntry =
  errItem :: "SyncItem option"
  errPath :: "string option"
  error :: fs_error

record SyncResult =
  created :: nat
  removed :: nat
  skipped :: nat
  newIndex :: SyncIndex
  errors :: "ErrorEntry list"

section \<open>JavaScript objects\<close>

text \<open>
  Own property keys of an ordinary object are enumerated with the array indices first
  (canonical decimal strings below \<open>2^32 - 1\<close>), in ascending numeric order, and the other
  string keys after them in creation order.
\<close>

definition isDigit :: "char \<Rightarrow> bool" where
  "isDigit c = (c \<in> set ''0123456789'')"

definition digitValue :: "char \<Rightarrow> nat" where
  "digitValue c = (case map_of (zip ''0123456789'' [0, 1, 2, 3, 4, 5, 6, 7, 8, 9]) c of Some d \<Rightarrow> d | None \<Rightarrow> 0)"

definition arrayIndexValue :: "string \<Rightarrow> nat" where
  "arrayIndexValue s = foldl (\<lambda>n c. 10 * n + digitValue c) 0 s"

definition isArrayIndex :: "string \<Rightarrow> bool" where
  "isArrayIndex s =
     (s \<noteq> [] \<and> list_all isDigit s \<and> (s = ''0'' \<or> take 1 s \<noteq> ''0'')
      \<and> arrayIndexValue s < 4294967295)"

fun insertOrdered :: "SyncIndex \<Rightarrow> string \<Rightarrow> string \<Rightarrow> SyncIndex" where
  "insertOrdered [] k v = [(k, v)]"
| "insertOrdered ((k', v') # rest) k v =
     (if isArrayIndex k' \<and> arrayIndexValue k' < arrayIndexValue k
      then (k', v') # insertOrdered rest k v
      else (k, v) # (k', v') # rest)"

text \<open>
  The assignment \<open>obj[k] = v\<close>: an own property keeps its place and takes the new value.
  Otherwise the key \<open>__proto__\<close> reaches the setter inherited from \<open>Object.prototype\<close>,
  which ignores a string, and any other key becomes a new own property.
\<close>

definition setProperty :: "SyncIndex \<Rightarrow> string \<Rightarrow> string \<Rightarrow> SyncIndex" where
  "setProperty obj k v =
     (if k \<in> set (map fst obj) then map (\<lambda>e. if fst e = k then (k, v) else e) obj
      else if k = ''__proto__'' then obj
      else if isArrayIndex k then insertOrdered obj k v
      else obj @ [(k, v)])"

section \<open>The platform library (node:path and String.prototype)\<close>

text \<open>
  \<open>path.join\<close>, \<open>path.basename\<close> and \<open>path.dirname\<close> of \<open>node:path\<close>, and the
  case mappings \<open>String.prototype.toLowerCase\<close> and \<open>toUpperCase\<close> (which follow the
  Unicode case tables and may change the length of a string), belong to the platform,
  not to the repository; the functions below take them as a parameter. A string is the
  list of its code units, so \<open>id.slice(0, 8)\<close> is \<open>take 8\<close>.
\<close>

record platform =
  path_join :: "string \<Rightarrow> string \<Rightarrow> string"
  path_basename :: "string \<Rightarrow> string"
  path_dirname :: "string \<Rightarrow> string"
  toLowerCase :: "string \<Rightarrow> string"
  toUpperCase :: "string \<Rightarrow> string"

section \<open>Core sync logic (src/lib/core.ts)\<close>

definition INVALID_FILENAME_CHARS :: "char set" where
  "INVALID_FILENAME_CHARS =
     {CHR ''<'', CHR ''>'', CHR '':'', CHR 0x22, CHR ''/'', CHR 0x5C, CHR ''|'', CHR ''?'', CHR ''*''}"

definition sanitizeFilename :: "string \<Rightarrow> string" where
  "sanitizeFilename nm = map (\<lambda>c. if c \<in> INVALID_FILENAME_CHARS then CHR ''_'' else c) nm"

definition generateTargetPath ::
  "platform \<Rightarrow> SyncItem \<Rightarrow> string \<Rightarrow> SyncMode \<Rightarrow> string set \<Rightarrow> string" where
  "generateTargetPath P itm targetDir mode existingNames =
     (if mode = EntryDir then path_join P targetDir (item_id itm @ ''.info'')
      else
        let safeName = sanitizeFilename (name itm);
            baseName = safeName @ ''.'' @ ext itm;
            baseNameLower = toLowerCase P baseName
        in if baseNameLower \<notin> existingNames then path_join P targetDir baseName
           else
             let idPart = toUpperCase P (take 8 (item_id itm));
                 collisionName = safeName @ '' ('' @ idPart @ '').'' @ ext itm
             in path_join P targetDir collisionName)"

text \<open>
  First pass of \<open>computeSyncPlan\<close>: the names of the entries that stay.
  \<open>indexedIds.has(item.id)\<close> holds exactly when the lookup \<open>currentIndex[item.id]\<close> finds
  an own property.
\<close>

fun collectExistingNames ::
  "platform \<Rightarrow> SyncIndex \<Rightarrow> SyncItem list \<Rightarrow> string set \<Rightarrow> string set" where
  "collectExistingNames P currentIndex [] existingNames = existingNames"
| "collectExistingNames P currentIndex (itm # items) existingNames =
     (case map_of currentIndex (item_id itm) of
        Some existingPath \<Rightarrow>
          collectExistingNames P currentIndex items
            (insert (toLowerCase P (path_basename P existingPath)) existingNames)
      | None \<Rightarrow> collectExistingNames P currentIndex items existingNames)"

text \<open>Second pass: the items to create, each named against the names taken so far.\<close>

fun planCreations ::
  "platform \<Rightarrow> string set \<Rightarrow> string \<Rightarrow> SyncMode \<Rightarrow> SyncItem list
     \<Rightarrow> Creation list \<times> string set \<Rightarrow> Creation list \<times> string set" where
  "planCreations P indexedIds targetDir mode [] acc = acc"
| "planCreations P indexedIds targetDir mode (itm # items) (cs, existingNames) =
     (if item_id itm \<notin> indexedIds
      then
        let tp = generateTargetPath P itm targetDir mode existingNames
        in planCreations P indexedIds targetDir mode items
             (cs @ [\<lparr>item = itm, targetPath = tp\<rparr>],
              insert (toLowerCase P (path_basename P tp)) existingNames)
      else planCreations P indexedIds targetDir mode items (cs, existingNames))"

definition computeSyncPlan ::
  "platform \<Rightarrow> SyncItem list \<Rightarrow> SyncIndex \<Rightarrow> SyncMode \<Rightarrow> string \<Rightarrow> SyncPlan" where
  "computeSyncPlan P items currentIndex mode targetDir =
     (let indexedIds = set (map fst currentIndex);
          filteredIds = set (map item_id items);
          existingNames = collectExistingNames P currentIndex items {};
          creations = fst (planCreations P indexedIds targetDir mode items ([], existingNames));
          removals = map snd (filter (\<lambda>e. fst e \<notin> filteredIds) currentIndex)
      in \<lparr>toCreate = creations, toRemove = removals, plan_skipped = []\<rparr>)"

text \<open>
  The inner scan of \<open>buildNewIndex\<close> and of the executors: delete the first entry whose
  path is \<open>removedPath\<close>, then \<open>break\<close>.
\<close>

fun deleteFirstWithPath :: "SyncIndex \<Rightarrow> string \<Rightarrow> SyncIndex" where
  "deleteFirstWithPath [] removedPath = []"
| "deleteFirstWithPath ((itemId, p) # rest) removedPath =
     (if p = removedPath then rest else (itemId, p) # deleteFirstWithPath rest removedPath)"

definition addCreated :: "SyncIndex \<Rightarrow> Creation \<Rightarrow> SyncIndex" where
  "addCreated idx c = setProperty idx (item_id (item c)) (targetPath c)"

definition buildNewIndex :: "SyncIndex \<Rightarrow> SyncPlan \<Rightarrow> SyncIndex" where
  "buildNewIndex currentIndex plan =
     foldl addCreated (foldl deleteFirstWithPath currentIndex (toRemove plan)) (toCreate plan)"

section \<open>Two platform libraries\<close>

text \<open>
  Modelled from the spec: the platform library is not among the repository's files; the
  spec writes a joined path as \<open>targetDir/name\<close>. The instance \<open>slashPaths\<close> joins with a
  slash, reads the final component after the last slash, and maps the case of the ASCII
  letters only (on ASCII strings this is what the platform's case mappings do). It
  instantiates the theorems at concrete ASCII inputs.
\<close>

definition asciiLowerChar :: "char \<Rightarrow> char" where
  "asciiLowerChar c =
     (case map_of (zip ''ABCDEFGHIJKLMNOPQRSTUVWXYZ'' ''abcdefghijklmnopqrstuvwxyz'') c of
        Some l \<Rightarrow> l | None \<Rightarrow> c)"

definition asciiUpperChar :: "char \<Rightarrow> char" where
  "asciiUpperChar c =
     (case map_of (zip ''abcdefghijklmnopqrstuvwxyz'' ''ABCDEFGHIJKLMNOPQRSTUVWXYZ'') c of
        Some u \<Rightarrow> u | None \<Rightarrow> c)"

definition asciiLowerCase :: "string \<Rightarrow> string" where
  "asciiLowerCase s = map asciiLowerChar s"

definition asciiUpperCase :: "string \<Rightarrow> string" where
  "asciiUpperCase s = map asciiUpperChar s"

definition slashPaths :: platform where
  "slashPaths =
     \<lparr>path_join = (\<lambda>d n. d @ ''/'' @ n),
      path_basename = (\<lambda>p. rev (takeWhile (\<lambda>c. c \<noteq> CHR ''/'') (rev p))),
      path_dirname = (\<lambda>p. rev (drop 1 (dropWhile (\<lambda>c. c \<noteq> CHR ''/'') (rev p)))),
      toLowerCase = asciiLowerCase,
      toUpperCase = asciiUpperCase\<rparr>"

text \<open>
  Modelled from the spec: \<open>node:path\<close> is not among the repository's files. The instance
  \<open>nodePaths\<close> follows the POSIX flavour of Node's \<open>path.join\<close> and \<open>path.basename\<close>:
  \<open>join\<close> puts a slash between its non-empty arguments and normalises the result, that
  is, it drops empty and \<open>.\<close> segments, lets a \<open>..\<close> segment cancel the segment before it
  (keeping \<open>..\<close> at the front of a relative path only), and keeps a leading and a
  trailing slash; \<open>basename\<close> drops trailing slashes and returns what follows the last
  remaining slash. (The Windows flavour normalises in the same way, with the backslash as
  its separator.) The other fields are those of \<open>slashPaths\<close>.
\<close>

fun splitSlash :: "string \<Rightarrow> string list" where
  "splitSlash [] = [[]]"
| "splitSlash (c # cs) =
     (if c = CHR ''/'' then [] # splitSlash cs
      else (case splitSlash cs of [] \<Rightarrow> [[c]] | seg # segs \<Rightarrow> (c # seg) # segs))"

fun joinSlash :: "string list \<Rightarrow> string" where
  "joinSlash [] = []"
| "joinSlash [seg] = seg"
| "joinSlash (seg # segs) = seg @ ''/'' @ joinSlash segs"

definition normalizeStep :: "bool \<Rightarrow> string list \<Rightarrow> string \<Rightarrow> string list" where
  "normalizeStep allowAboveRoot res seg =
     (if seg = [] \<or> seg = ''.'' then res
      else if seg = ''..'' then
        (if res \<noteq> [] \<and> last res \<noteq> ''..'' then butlast res
         else if allowAboveRoot then res @ [''..''] else res)
      else res @ [seg])"

definition nodeNormalize :: "string \<Rightarrow> string" where
  "nodeNormalize p =
     (if p = [] then ''.''
      else
        let isAbsolute = (hd p = CHR ''/'');
            trailingSeparator = (last p = CHR ''/'');
            res = joinSlash (foldl (normalizeStep (\<not> isAbsolute)) [] (splitSlash p))
        in if res = [] then (if isAbsolute then ''/'' else if trailingSeparator then ''./'' else ''.'')
           else (if isAbsolute then ''/'' else []) @ res @ (if trailingSeparator then ''/'' else []))"

definition nodeJoin :: "string \<Rightarrow> string \<Rightarrow> string" where
  "nodeJoin d n =
     (let joined = joinSlash (filter (\<lambda>arg. arg \<noteq> []) [d, n])
      in if joined = [] then ''.'' else nodeNormalize joined)"

definition nodeBasename :: "string \<Rightarrow> string" where
  "nodeBasename p =
     rev (takeWhile (\<lambda>c. c \<noteq> CHR ''/'') (dropWhile (\<lambda>c. c = CHR ''/'') (rev p)))"

definition nodePaths :: platform where
  "nodePaths = slashPaths\<lparr>path_join := nodeJoin, path_basename := nodeBasename\<rparr>"

section \<open>Filesystem operations (src/lib/executors.ts)\<close>

text \<open>
  The executors are asynchronous and sequential: every \<open>await\<close> completes before the
  next statement runs. The filesystem is an explicit state \<open>'fs\<close> passed from one
  operation to the next. The primitives (\<open>fs.lstat\<close>, \<open>fs.stat\<close>, \<open>fs.rm\<close>,
  \<open>fs.mkdir\<close>, \<open>fs.copyFile\<close> of Node and the two link creators of
  \<open>eagle-cooltils/win\<close>) belong to the platform and are taken as a parameter. A rejected
  promise is the value \<open>Inl e\<close>; the two probes only read the state.
\<close>

record 'fs fsops =
  fs_lstat :: "'fs \<Rightarrow> string \<Rightarrow> fs_error + unit"
  fs_stat :: "'fs \<Rightarrow> string \<Rightarrow> fs_error + unit"
  fs_rm :: "'fs \<Rightarrow> string \<Rightarrow> (fs_error + unit) \<times> 'fs"
  fs_mkdir :: "'fs \<Rightarrow> string \<Rightarrow> (fs_error + unit) \<times> 'fs"
  fs_copyFile :: "'fs \<Rightarrow> string \<Rightarrow> string \<Rightarrow> (fs_error + unit) \<times> 'fs"
  createEntrySymlink ::
    "'fs \<Rightarrow> string \<Rightarrow> string \<Rightarrow> string \<Rightarrow> DirLinkType \<Rightarrow> (fs_error + unit) \<times> 'fs"
  createItemFileSymlink :: "'fs \<Rightarrow> string \<Rightarrow> string \<Rightarrow> (fs_error + unit) \<times> 'fs"

record ExecuteOptions =
  libraryPath :: string
  dirLinkType :: "DirLinkType option"

record RemovalResult =
  rm_removed :: nat
  rm_errors :: "(string \<times> fs_error) list"

text \<open>\<open>promise.catch(() => null)\<close>: a rejection becomes \<open>null\<close>, which is falsy.\<close>

definition catchNull :: "fs_error + 'a \<Rightarrow> 'a option" where
  "catchNull r = (case r of Inl e \<Rightarrow> None | Inr s \<Rightarrow> Some s)"

text \<open>The body of the loop of \<open>executeRemovals\<close>, for one path.\<close>

definition removeOne ::
  "'fs fsops \<Rightarrow> RemovalResult \<times> 'fs \<Rightarrow> string \<Rightarrow> RemovalResult \<times> 'fs" where
  "removeOne ops st targetPath' =
     (case st of (result, fs) \<Rightarrow>
        (case catchNull (fs_lstat ops fs targetPath') of
           None \<Rightarrow> (result, fs)
         | Some stat \<Rightarrow>
             (case fs_rm ops fs targetPath' of
                (Inr u, fs') \<Rightarrow> (result\<lparr>rm_removed := rm_removed result + 1\<rparr>, fs')
              | (Inl e, fs') \<Rightarrow>
                  (result\<lparr>rm_errors := rm_errors result @ [(targetPath', e)]\<rparr>, fs'))))"

definition executeRemovals :: "'fs fsops \<Rightarrow> 'fs \<Rightarrow> string list \<Rightarrow> RemovalResult \<times> 'fs" where
  "executeRemovals ops fs toRemove' =
     foldl (removeOne ops) (\<lparr>rm_removed = 0, rm_errors = []\<rparr>, fs) toRemove'"

text \<open>
  The \<open>try\<close> block of a creation loop ends in one of three ways: it runs to its end
  (the entry was created), it leaves through \<open>continue\<close> (the source file is missing),
  or a primitive raises and the \<open>catch\<close> clause takes over.
\<close>

datatype attempt = Done | Skip | Raised fs_error

definition tryEntryDir ::
  "'fs fsops \<Rightarrow> ExecuteOptions \<Rightarrow> 'fs \<Rightarrow> Creation \<Rightarrow> attempt \<times> 'fs" where
  "tryEntryDir ops options fs c =
     (case createEntrySymlink ops fs (libraryPath options) (item_id (item c)) (targetPath c)
             (case dirLinkType options of None \<Rightarrow> Junction | Some t \<Rightarrow> t) of
        (Inr u, fs') \<Rightarrow> (Done, fs')
      | (Inl e, fs') \<Rightarrow> (Raised e, fs'))"

definition tryEntryFile :: "'fs fsops \<Rightarrow> 'fs \<Rightarrow> Creation \<Rightarrow> attempt \<times> 'fs" where
  "tryEntryFile ops fs c =
     (case catchNull (fs_stat ops fs (filePath (item c))) of
        None \<Rightarrow> (Skip, fs)
      | Some exists \<Rightarrow>
          (case createItemFileSymlink ops fs (filePath (item c)) (targetPath c) of
             (Inr u, fs') \<Rightarrow> (Done, fs')
           | (Inl e, fs') \<Rightarrow> (Raised e, fs')))"

definition tryCopy :: "platform \<Rightarrow> 'fs fsops \<Rightarrow> 'fs \<Rightarrow> Creation \<Rightarrow> attempt \<times> 'fs" where
  "tryCopy P ops fs c =
     (case catchNull (fs_stat ops fs (filePath (item c))) of
        None \<Rightarrow> (Skip, fs)
      | Some exists \<Rightarrow>
          (case fs_mkdir ops fs (path_dirname P (targetPath c)) of
             (Inl e, fs') \<Rightarrow> (Raised e, fs')
           | (Inr u, fs') \<Rightarrow>
               (case fs_copyFile ops fs' (filePath (item c)) (targetPath c) of
                  (Inr u', fs'') \<Rightarrow> (Done, fs'')
                | (Inl e, fs'') \<Rightarrow> (Raised e, fs''))))"

text \<open>The bookkeeping of one creation: the end of the \<open>try\<close> block, \<open>continue\<close>, \<open>catch\<close>.\<close>

fun account :: "SyncResult \<Rightarrow> Creation \<Rightarrow> attempt \<Rightarrow> SyncResult" where
  "account result c Done =
     result\<lparr>created := created result + 1,
            newIndex := setProperty (newIndex result) (item_id (item c)) (targetPath c)\<rparr>"
| "account result c Skip = result\<lparr>skipped := skipped result + 1\<rparr>"
| "account result c (Raised e) =
     result\<lparr>errors := errors result @ [\<lparr>errItem = Some (item c), errPath = None, error = e\<rparr>]\<rparr>"

definition createOne ::
  "('fs \<Rightarrow> Creation \<Rightarrow> attempt \<times> 'fs) \<Rightarrow> SyncResult \<times> 'fs \<Rightarrow> Creation \<Rightarrow> SyncResult \<times> 'fs" where
  "createOne body st c =
     (case st of (result, fs) \<Rightarrow> (case body fs c of (a, fs') \<Rightarrow> (account result c a, fs')))"

text \<open>
  The three executors are the same text around their \<open>try\<close> block: the initial result,
  the removals, the creation loop, and the scan that drops the removed paths from the
  working index.
\<close>

definition executeWith ::
  "('fs \<Rightarrow> Creation \<Rightarrow> attempt \<times> 'fs) \<Rightarrow> 'fs fsops \<Rightarrow> 'fs \<Rightarrow> SyncPlan \<Rightarrow> SyncIndex
     \<Rightarrow> SyncResult \<times> 'fs" where
  "executeWith body ops fs plan currentIndex =
     (case executeRemovals ops fs (toRemove plan) of (removalResult, fs1) \<Rightarrow>
        (case foldl (createOne body)
                (\<lparr>created = 0, removed = rm_removed removalResult,
                  skipped = length (plan_skipped plan), newIndex = currentIndex,
                  errors = map (\<lambda>e. \<lparr>errItem = None, errPath = Some (fst e), error = snd e\<rparr>)
                             (rm_errors removalResult)\<rparr>, fs1)
                (toCreate plan) of
           (result, fs2) \<Rightarrow>
             (result\<lparr>newIndex := foldl deleteFirstWithPath (newIndex result) (toRemove plan)\<rparr>,
              fs2)))"

definition executeEntryDir ::
  "'fs fsops \<Rightarrow> 'fs \<Rightarrow> SyncPlan \<Rightarrow> SyncIndex \<Rightarrow> ExecuteOptions \<Rightarrow> SyncResult \<times> 'fs" where
  "executeEntryDir ops fs plan currentIndex options =
     executeWith (tryEntryDir ops options) ops fs plan currentIndex"

definition executeEntryFile ::
  "'fs fsops \<Rightarrow> 'fs \<Rightarrow> SyncPlan \<Rightarrow> SyncIndex \<Rightarrow> ExecuteOptions \<Rightarrow> SyncResult \<times> 'fs" where
  "executeEntryFile ops fs plan currentIndex options =
     executeWith (tryEntryFile ops) ops fs plan currentIndex"

definition executeCopy ::
  "platform \<Rightarrow> 'fs fsops \<Rightarrow> 'fs \<Rightarrow> SyncPlan \<Rightarrow> SyncIndex \<Rightarrow> ExecuteOptions
     \<Rightarrow> SyncResult \<times> 'fs" where
  "executeCopy P ops fs plan currentIndex options =
     executeWith (tryCopy P ops) ops fs plan currentIndex"

text \<open>
  \<open>executePlan\<close>; the \<open>default\<close> branch of its \<open>switch\<close> is unreachable for a value of
  type \<open>SyncMode\<close>.
\<close>

definition executePlan ::
  "platform \<Rightarrow> 'fs fsops \<Rightarrow> 'fs \<Rightarrow> SyncPlan \<Rightarrow> SyncMode \<Rightarrow> SyncIndex \<Rightarrow> ExecuteOptions
     \<Rightarrow> SyncResult \<times> 'fs" where
  "executePlan P ops fs plan mode currentIndex options =
     (case mode of
        EntryDir \<Rightarrow> executeEntryDir ops fs plan currentIndex options
      | EntryFile \<Rightarrow> executeEntryFile ops fs plan currentIndex options
      | Copy \<Rightarrow> executeCopy P ops fs plan currentIndex options)"

section \<open>Order of the own keys\<close>

text \<open>
  In every object the array-index keys are enumerated before the other keys, by
  ascending value. \<open>orderedIndex\<close> states this of a list of entries.
\<close>

definition keyBefore :: "string \<Rightarrow> string \<Rightarrow> bool" where
  "keyBefore a b =
     (if isArrayIndex b then isArrayIndex a \<and> arrayIndexValue a \<le> arrayIndexValue b else True)"

definition orderedIndex :: "SyncIndex \<Rightarrow> bool" where
  "orderedIndex idx = sorted_wrt (\<lambda>e f. keyBefore (fst e) (fst f)) idx"

text \<open>A key that a plain assignment appends after all existing keys.\<close>

definition plainKey :: "string \<Rightarrow> bool" where
  "plainKey k = (\<not> isArrayIndex k \<and> k \<noteq> ''__proto__'')"

section \<open>Outcomes of one creation\<close>

text \<open>
  The \<open>try\<close> block that \<open>executePlan\<close> runs for a mode, and what the primitives of that
  mode do for one entry in a given filesystem state: the source file is missing (the
  probe \<open>fs.stat\<close> is rejected), every primitive succeeds, or a primitive raises.
\<close>

definition creationBody ::
  "platform \<Rightarrow> 'fs fsops \<Rightarrow> SyncMode \<Rightarrow> ExecuteOptions \<Rightarrow> 'fs \<Rightarrow> Creation \<Rightarrow> attempt \<times> 'fs" where
  "creationBody P ops mode options =
     (case mode of
        EntryDir \<Rightarrow> tryEntryDir ops options
      | EntryFile \<Rightarrow> tryEntryFile ops
      | Copy \<Rightarrow> tryCopy P ops)"

definition sourceMissing :: "'fs fsops \<Rightarrow> 'fs \<Rightarrow> Creation \<Rightarrow> bool" where
  "sourceMissing ops fs c = isl (fs_stat ops fs (filePath (item c)))"

definition creationSucceeds ::
  "platform \<Rightarrow> 'fs fsops \<Rightarrow> SyncMode \<Rightarrow> ExecuteOptions \<Rightarrow> 'fs \<Rightarrow> Creation \<Rightarrow> 'fs \<Rightarrow> bool" where
  "creationSucceeds P ops mode options fs c fs' =
     (case mode of
        EntryDir \<Rightarrow>
          createEntrySymlink ops fs (libraryPath options) (item_id (item c)) (targetPath c)
            (case dirLinkType options of None \<Rightarrow> Junction | Some t \<Rightarrow> t) = (Inr (), fs')
      | EntryFile \<Rightarrow>
          \<not> sourceMissing ops fs c
          \<and> createItemFileSymlink ops fs (filePath (item c)) (targetPath c) = (Inr (), fs')
      | Copy \<Rightarrow>
          \<not> sourceMissing ops fs c
          \<and> (case fs_mkdir ops fs (path_dirname P (targetPath c)) of
                (Inl e, fsm) \<Rightarrow> False
              | (Inr u, fsm) \<Rightarrow>
                  fs_copyFile ops fsm (filePath (item c)) (targetPath c) = (Inr (), fs')))"

definition creationRaises ::
  "platform \<Rightarrow> 'fs fsops \<Rightarrow> SyncMode \<Rightarrow> ExecuteOptions \<Rightarrow> 'fs \<Rightarrow> Creation \<Rightarrow> fs_error \<Rightarrow> bool" where
  "creationRaises P ops mode options fs c e =
     (case mode of
        EntryDir \<Rightarrow>
          fst (createEntrySymlink ops fs (libraryPath options) (item_id (item c)) (targetPath c)
            (case dirLinkType options of None \<Rightarrow> Junction | Some t \<Rightarrow> t)) = Inl e
      | EntryFile \<Rightarrow>
          \<not> sourceMissing ops fs c
          \<and> fst (createItemFileSymlink ops fs (filePath (item c)) (targetPath c)) = Inl e
      | Copy \<Rightarrow>
          \<not> sourceMissing ops fs c
          \<and> (case fs_mkdir ops fs (path_dirname P (targetPath c)) of
                (Inl e', fsm) \<Rightarrow> e' = e
              | (Inr u, fsm) \<Rightarrow>
                  fst (fs_copyFile ops fsm (filePath (item c)) (targetPath c)) = Inl e))"

text \<open>
  Modelled from the spec: the platform primitives are not among the repository's files.
  This instance is a filesystem given by the list of the paths that exist: a probe finds
  the listed paths, removal forgets a path and never fails, a link or a copy adds its
  target, and a copy needs its source. It instantiates the theorems at concrete inputs.
\<close>

definition memFs :: "string list fsops" where
  "memFs =
     \<lparr>fs_lstat = (\<lambda>fs p. if p \<in> set fs then Inr () else Inl ENOENT),
      fs_stat = (\<lambda>fs p. if p \<in> set fs then Inr () else Inl ENOENT),
      fs_rm = (\<lambda>fs p. (Inr (), removeAll p fs)),
      fs_mkdir = (\<lambda>fs p. (Inr (), fs)),
      fs_copyFile = (\<lambda>fs src dst. if src \<in> set fs then (Inr (), List.insert dst fs) else (Inl ENOENT, fs)),
      createEntrySymlink = (\<lambda>fs lib i dst t. (Inr (), List.insert dst fs)),
      createItemFileSymlink = (\<lambda>fs src dst. (Inr (), List.insert dst fs))\<rparr>"

text \<open>
  The result object when the creation loop starts: the initial counters, with the outcome
  of the removals written into it.
\<close>

definition startResult :: "SyncPlan \<Rightarrow> SyncIndex \<Rightarrow> RemovalResult \<Rightarrow> SyncResult" where
  "startResult plan idx rr =
     \<lparr>created = 0, removed = rm_removed rr, skipped = length (plan_skipped plan),
      newIndex = idx,
      errors = map (\<lambda>e. \<lparr>errItem = None, errPath = Some (fst e), error = snd e\<rparr>) (rm_errors rr)\<rparr>"

definition itemErrors :: "ErrorEntry list \<Rightarrow> ErrorEntry list" where
  "itemErrors es = filter (\<lambda>e. errItem e \<noteq> None) es"

section \<open>Concrete inputs\<close>

text \<open>Items, plans and options at which the theorems below are instantiated.\<close>

definition sampleA :: SyncItem where
  "sampleA = \<lparr>item_id = ''ITEM1'', name = ''a'', ext = ''png'', filePath = ''lib/a.png''\<rparr>"

definition sampleB :: SyncItem where
  "sampleB = \<lparr>item_id = ''ITEM2'', name = ''b'', ext = ''png'', filePath = ''lib/b.png''\<rparr>"

definition samplePlan :: SyncPlan where
  "samplePlan =
     \<lparr>toCreate = [\<lparr>item = sampleA, targetPath = ''out/a.png''\<rparr>,
                  \<lparr>item = sampleB, targetPath = ''out/b.png''\<rparr>],
      toRemove = [], plan_skipped = []\<rparr>"

definition sampleOptions :: ExecuteOptions where
  "sampleOptions = \<lparr>libraryPath = ''lib'', dirLinkType = None\<rparr>"

definition sampleRemovals :: SyncPlan where
  "sampleRemovals = \<lparr>toCreate = [], toRemove = [''out/gone.png'', ''out/b.png''], plan_skipped = []\<rparr>"

definition samplePlan2 :: SyncPlan where
  "samplePlan2 =
     \<lparr>toCreate = [\<lparr>item = sampleA, targetPath = ''out/a.png''\<rparr>],
      toRemove = [''out/b.png''], plan_skipped = []\<rparr>"

definition dottedItem :: SyncItem where
  "dottedItem = \<lparr>item_id = ''a/../b'', name = ''a'', ext = ''png'', filePath = ''lib/a.png''\<rparr>"

definition plainItem :: SyncItem where
  "plainItem = \<lparr>item_id = ''b'', name = ''b'', ext = ''png'', filePath = ''lib/b.png''\<rparr>"

definition sampleSeven :: SyncItem where
  "sampleSeven = \<lparr>item_id = ''7'', name = ''a'', ext = ''png'', filePath = ''lib/a.png''\<rparr>"

definition sampleIndex :: SyncIndex where
  "sampleIndex = [(''ITEM2'', ''out/b.png''), (''OLD'', ''out/o.png'')]"

text \<open>
  Two variants of the list filesystem: one whose probe \<open>fs.lstat\<close> is denied, and one
  that denies \<open>fs.rm\<close> and the creation of a file link.
\<close>

definition deniedProbe :: "string list fsops" where
  "deniedProbe = memFs\<lparr>fs_lstat := (\<lambda>fs p. Inl EACCES)\<rparr>"

definition deniedRemoval :: "string list fsops" where
  "deniedRemoval = memFs\<lparr>fs_rm := (\<lambda>fs p. (Inl EPERM, fs)),
                          createItemFileSymlink := (\<lambda>fs src dst. (Inl EPERM, fs))\<rparr>"

section \<open>The plan computer\<close>

lemma planCreations_items:
  "map item (fst (planCreations P ids d m items (cs, nms))) =
     map item cs @ filter (\<lambda>i. item_id i \<notin> ids) items"
  by (induction items arbitrary: cs nms) (simp_all add: Let_def)

lemma computeSyncPlan_toCreate:
  "map item (toCreate (computeSyncPlan P items idx mode dir)) =
     filter (\<lambda>i. item_id i \<notin> set (map fst idx)) items"
  by (simp add: computeSyncPlan_def Let_def planCreations_items)

lemma computeSyncPlan_toRemove:
  "toRemove (computeSyncPlan P items idx mode dir) =
     map snd (filter (\<lambda>e. fst e \<notin> set (map item_id items)) idx)"
  by (simp add: computeSyncPlan_def Let_def)

text \<open>
  C1. The plan partitions: \<open>toCreate\<close> holds, in the caller's order, exactly the desired
  items whose id is not a key of the index, and \<open>toRemove\<close> holds exactly the paths of the
  index entries whose id is not the id of a desired item.
\<close>

theorem computeSyncPlan_partition:
  "map item (toCreate (computeSyncPlan P items currentIndex mode targetDir)) =
     filter (\<lambda>i. item_id i \<notin> set (map fst currentIndex)) items
   \<and> toRemove (computeSyncPlan P items currentIndex mode targetDir) =
     map snd (filter (\<lambda>e. fst e \<notin> set (map item_id items)) currentIndex)"
  by (simp add: computeSyncPlan_def Let_def planCreations_items)

section \<open>The name generator\<close>

text \<open>
  The Node-like library reads a plain file name (no slash, not empty, neither \<open>.\<close> nor
  \<open>..\<close>) back as the final component of the path it joins it to.
\<close>

lemma splitSlash_plain: "CHR ''/'' \<notin> set n \<Longrightarrow> splitSlash n = [n]"
  by (induction n) auto

lemma splitSlash_nonempty: "splitSlash s \<noteq> []"
  by (induction s) (auto split: list.split)

lemma splitSlash_snoc:
  "CHR ''/'' \<notin> set n \<Longrightarrow> splitSlash (d @ CHR ''/'' # n) = splitSlash d @ [n]"
proof (induction d)
  case Nil
  then show ?case by (simp add: splitSlash_plain)
next
  case (Cons c d)
  with splitSlash_nonempty[of d] show ?case by (cases "splitSlash d") auto
qed

lemma joinSlash_snoc:
  "joinSlash (segs @ [n]) = (if segs = [] then n else joinSlash segs @ ''/'' @ n)"
  by (induction segs rule: joinSlash.induct) auto

lemma basename_after_slash:
  assumes "CHR ''/'' \<notin> set n" and "n \<noteq> []" and "pre = [] \<or> last pre = CHR ''/''"
  shows "nodeBasename (pre @ n) = n"
proof -
  from assms(1,2) have h: "hd (rev n) \<noteq> CHR ''/''"
    by (metis hd_rev last_in_set)
  with assms(2) have d: "dropWhile (\<lambda>c. c = CHR ''/'') (rev n @ rev pre) = rev n @ rev pre"
    by (cases "rev n") auto
  have t: "takeWhile (\<lambda>c. c \<noteq> CHR ''/'') (rev n @ rev pre) = rev n"
  proof (cases "pre = []")
    case True
    with assms(1) show ?thesis by (auto simp: takeWhile_eq_all_conv)
  next
    case False
    with assms(3) have "hd (rev pre) = CHR ''/''" by (simp add: hd_rev)
    with False have e: "takeWhile (\<lambda>c. c \<noteq> CHR ''/'') (rev pre) = []"
      by (cases "rev pre") auto
    have "takeWhile (\<lambda>c. c \<noteq> CHR ''/'') (rev n @ rev pre) =
        rev n @ takeWhile (\<lambda>c. c \<noteq> CHR ''/'') (rev pre)"
      using assms(1) by (intro takeWhile_append2) auto
    with e show ?thesis by simp
  qed
  show ?thesis by (simp add: nodeBasename_def d t)
qed

lemma nodeNormalize_last:
  assumes "CHR ''/'' \<notin> set n" and "n \<noteq> []" and "n \<noteq> ''.''" and "n \<noteq> ''..''"
    and "splitSlash p = segs @ [n]" and "last p \<noteq> CHR ''/''" and "p \<noteq> []"
  shows "\<exists>pre. nodeNormalize p = pre @ n \<and> (pre = [] \<or> last pre = CHR ''/'')"
proof -
  let ?st = "foldl (normalizeStep (hd p \<noteq> CHR ''/'')) [] segs"
  have f: "foldl (normalizeStep (hd p \<noteq> CHR ''/'')) [] (splitSlash p) = ?st @ [n]"
    using assms(2-4) by (simp add: assms(5) normalizeStep_def)
  have j: "joinSlash (?st @ [n]) = (if ?st = [] then n else joinSlash ?st @ ''/'' @ n)"
    by (rule joinSlash_snoc)
  have ne: "joinSlash (?st @ [n]) \<noteq> []" using assms(2) by (simp add: j)
  have "nodeNormalize p = (if hd p = CHR ''/'' then ''/'' else []) @ joinSlash (?st @ [n])"
    using assms(6,7) ne by (simp add: nodeNormalize_def Let_def f)
  then have "nodeNormalize p =
      ((if hd p = CHR ''/'' then ''/'' else []) @ (if ?st = [] then [] else joinSlash ?st @ ''/'')) @ n"
    by (simp add: j)
  moreover have "(if hd p = CHR ''/'' then ''/'' else []) @ (if ?st = [] then [] else joinSlash ?st @ ''/'') = []
      \<or> last ((if hd p = CHR ''/'' then ''/'' else []) @ (if ?st = [] then [] else joinSlash ?st @ ''/''))
          = CHR ''/''"
    by simp
  ultimately show ?thesis by blast
qed

lemma nodePaths_readback:
  assumes "CHR ''/'' \<notin> set n" and "n \<noteq> []" and "n \<noteq> ''.''" and "n \<noteq> ''..''"
  shows "path_basename nodePaths (path_join nodePaths d n) = n"
proof -
  have "\<exists>pre. nodeJoin d n = pre @ n \<and> (pre = [] \<or> last pre = CHR ''/'')"
  proof (cases "d = []")
    case True
    have l: "last n \<noteq> CHR ''/''" using assms(1,2) by (metis last_in_set)
    from nodeNormalize_last[OF assms, of n "[]"] splitSlash_plain[OF assms(1)] l assms(2) True
    show ?thesis by (simp add: nodeJoin_def)
  next
    case False
    have l: "last (d @ CHR ''/'' # n) \<noteq> CHR ''/''" using assms(1,2) by (metis last_appendR last_ConsR last_in_set list.distinct(1))
    from nodeNormalize_last[OF assms, of "d @ CHR ''/'' # n" "splitSlash d"]
      splitSlash_snoc[OF assms(1), of d] l assms(2) False
    show ?thesis by (simp add: nodeJoin_def)
  qed
  then obtain pre where "nodeJoin d n = pre @ n" "pre = [] \<or> last pre = CHR ''/''" by blast
  with basename_after_slash[OF assms(1,2), of pre] show ?thesis by (simp add: nodePaths_def)
qed

text \<open>
  C5 (as amended). In entry-directory mode the target path is the target directory joined
  with the item id followed by \<open>.info\<close>, whatever the names in use, the item's name and its
  extension are. Two items with distinct ids get distinct paths when the path library
  reads each file name \<open>id.info\<close> back as the final component of the joined path, as it
  does for plain file names.
\<close>

theorem entry_dir_path:
  "generateTargetPath P itm targetDir EntryDir existingNames =
     path_join P targetDir (item_id itm @ ''.info'')
   \<and> (item_id a = item_id b \<longrightarrow>
        generateTargetPath P a targetDir EntryDir namesA =
        generateTargetPath P b targetDir EntryDir namesB)
   \<and> (path_basename P (path_join P targetDir (item_id a @ ''.info'')) = item_id a @ ''.info'' \<longrightarrow>
      path_basename P (path_join P targetDir (item_id b @ ''.info'')) = item_id b @ ''.info'' \<longrightarrow>
      item_id a \<noteq> item_id b \<longrightarrow>
        generateTargetPath P a targetDir EntryDir namesA \<noteq>
        generateTargetPath P b targetDir EntryDir namesB)"
proof (intro conjI impI)
  show "generateTargetPath P itm targetDir EntryDir existingNames =
     path_join P targetDir (item_id itm @ ''.info'')"
    by (simp add: generateTargetPath_def)
next
  assume "item_id a = item_id b"
  then show "generateTargetPath P a targetDir EntryDir namesA =
        generateTargetPath P b targetDir EntryDir namesB"
    by (simp add: generateTargetPath_def)
next
  assume ra: "path_basename P (path_join P targetDir (item_id a @ ''.info'')) = item_id a @ ''.info''"
    and rb: "path_basename P (path_join P targetDir (item_id b @ ''.info'')) = item_id b @ ''.info''"
    and d: "item_id a \<noteq> item_id b"
  show "generateTargetPath P a targetDir EntryDir namesA \<noteq>
        generateTargetPath P b targetDir EntryDir namesB"
  proof
    assume "generateTargetPath P a targetDir EntryDir namesA =
        generateTargetPath P b targetDir EntryDir namesB"
    then have "path_join P targetDir (item_id a @ ''.info'') =
        path_join P targetDir (item_id b @ ''.info'')"
      by (simp add: generateTargetPath_def)
    then have "path_basename P (path_join P targetDir (item_id a @ ''.info'')) =
        path_basename P (path_join P targetDir (item_id b @ ''.info''))" by simp
    with ra rb d show False by simp
  qed
qed

theorem entry_dir_path_witness:
  "path_basename nodePaths (path_join nodePaths ''out'' (item_id sampleA @ ''.info''))
     = item_id sampleA @ ''.info''
   \<and> path_basename nodePaths (path_join nodePaths ''out'' (item_id sampleB @ ''.info''))
     = item_id sampleB @ ''.info''
   \<and> item_id sampleA \<noteq> item_id sampleB
   \<and> item_id sampleA = item_id (sampleA\<lparr>name := ''z''\<rparr>)
   \<and> generateTargetPath nodePaths sampleA ''out'' EntryDir {''item1.info''} =
       path_join nodePaths ''out'' (item_id sampleA @ ''.info'')
   \<and> generateTargetPath nodePaths sampleA ''out'' EntryDir {''item1.info''} =
       generateTargetPath nodePaths (sampleA\<lparr>name := ''z''\<rparr>) ''out'' EntryDir {}
   \<and> generateTargetPath nodePaths sampleA ''out'' EntryDir {''item1.info''} \<noteq>
       generateTargetPath nodePaths sampleB ''out'' EntryDir {}"
proof -
  have ra: "path_basename nodePaths (path_join nodePaths ''out'' (item_id sampleA @ ''.info''))
     = item_id sampleA @ ''.info''"
    by (rule nodePaths_readback) (simp_all add: sampleA_def)
  have rb: "path_basename nodePaths (path_join nodePaths ''out'' (item_id sampleB @ ''.info''))
     = item_id sampleB @ ''.info''"
    by (rule nodePaths_readback) (simp_all add: sampleB_def)
  have d: "item_id sampleA \<noteq> item_id sampleB" by (simp add: sampleA_def sampleB_def)
  have e: "item_id sampleA = item_id (sampleA\<lparr>name := ''z''\<rparr>)" by simp
  note t1 = entry_dir_path[of nodePaths sampleA "''out''" "{''item1.info''}" sampleA
      "sampleA\<lparr>name := ''z''\<rparr>" "{''item1.info''}" "{}"]
  note t2 = entry_dir_path[of nodePaths sampleA "''out''" "{''item1.info''}" sampleA
      sampleB "{''item1.info''}" "{}"]
  from t1 have a: "generateTargetPath nodePaths sampleA ''out'' EntryDir {''item1.info''} =
       path_join nodePaths ''out'' (item_id sampleA @ ''.info'')" by (rule conjunct1)
  from t1 e have b: "generateTargetPath nodePaths sampleA ''out'' EntryDir {''item1.info''} =
       generateTargetPath nodePaths (sampleA\<lparr>name := ''z''\<rparr>) ''out'' EntryDir {}" by blast
  from t2 ra rb d have c: "generateTargetPath nodePaths sampleA ''out'' EntryDir {''item1.info''} \<noteq>
       generateTargetPath nodePaths sampleB ''out'' EntryDir {}" by blast
  from ra rb d e a b c show ?thesis by (intro conjI)
qed

text \<open>
  An id with a \<open>..\<close> segment: the join normalises it away, and two items with distinct ids
  get the same path.
\<close>

theorem entry_dir_paths_coincide:
  "item_id dottedItem \<noteq> item_id plainItem
   \<and> generateTargetPath nodePaths dottedItem ''out'' EntryDir {} = ''out/b.info''
   \<and> generateTargetPath nodePaths plainItem ''out'' EntryDir {} = ''out/b.info''"
  by (simp add: generateTargetPath_def nodePaths_def nodeJoin_def nodeNormalize_def
        normalizeStep_def dottedItem_def plainItem_def)

text \<open>
  C4. The two items \<open>AAAAAAAA1111\<close> and \<open>BBBBBBBB2222\<close>, both named \<open>x\<close> with
  extension \<open>png\<close>, planned in that order against an empty index in entry-file mode, get
  \<open>x.png\<close> and \<open>x (BBBBBBBB).png\<close> in the target directory (the path library returning
  \<open>x.png\<close> as the final component of the first path, and upper-casing leaving
  \<open>BBBBBBBB\<close> as it is). In general, for every case mapping of the platform, a colliding
  name is resolved by the upper-cased first eight characters of the item's own id, in
  one step.
\<close>

theorem collision_determinism:
  "(path_basename P (path_join P targetDir ''x.png'') = ''x.png'' \<longrightarrow>
    toUpperCase P ''BBBBBBBB'' = ''BBBBBBBB'' \<longrightarrow>
      map targetPath (toCreate (computeSyncPlan P
        [\<lparr>item_id = ''AAAAAAAA1111'', name = ''x'', ext = ''png'', filePath = fA\<rparr>,
         \<lparr>item_id = ''BBBBBBBB2222'', name = ''x'', ext = ''png'', filePath = fB\<rparr>]
        [] EntryFile targetDir))
      = [path_join P targetDir ''x.png'', path_join P targetDir ''x (BBBBBBBB).png''])
   \<and> (mode \<noteq> EntryDir \<longrightarrow>
        toLowerCase P (sanitizeFilename (name itm) @ ''.'' @ ext itm) \<in> existingNames \<longrightarrow>
        generateTargetPath P itm targetDir mode existingNames =
          path_join P targetDir
            (sanitizeFilename (name itm) @ '' ('' @ toUpperCase P (take 8 (item_id itm)) @ '').''
               @ ext itm))"
  by (simp add: computeSyncPlan_def generateTargetPath_def Let_def sanitizeFilename_def
        INVALID_FILENAME_CHARS_def)

theorem collision_determinism_witness:
  "path_basename slashPaths (path_join slashPaths ''out'' ''x.png'') = ''x.png''
   \<and> toUpperCase slashPaths ''BBBBBBBB'' = ''BBBBBBBB''
   \<and> map targetPath (toCreate (computeSyncPlan slashPaths
        [\<lparr>item_id = ''AAAAAAAA1111'', name = ''x'', ext = ''png'', filePath = ''lib/1''\<rparr>,
         \<lparr>item_id = ''BBBBBBBB2222'', name = ''x'', ext = ''png'', filePath = ''lib/2''\<rparr>]
        [] EntryFile ''out''))
      = [''out/x.png'', ''out/x (BBBBBBBB).png'']
   \<and> toLowerCase slashPaths (sanitizeFilename ''Photo'' @ ''.'' @ ''PNG'') \<in> {''photo.png''}
   \<and> generateTargetPath slashPaths
        \<lparr>item_id = ''abc123def456'', name = ''Photo'', ext = ''PNG'', filePath = ''lib/3''\<rparr>
        ''out'' Copy {''photo.png''} = ''out/Photo (ABC123DE).PNG''"
proof -
  have b: "path_basename slashPaths (path_join slashPaths ''out'' ''x.png'') = ''x.png''"
    by (simp add: slashPaths_def)
  have u: "toUpperCase slashPaths ''BBBBBBBB'' = ''BBBBBBBB''"
    by (simp add: slashPaths_def asciiUpperCase_def asciiUpperChar_def)
  have m: "Copy \<noteq> EntryDir" by simp
  have l: "toLowerCase slashPaths (sanitizeFilename ''Photo'' @ ''.'' @ ''PNG'') \<in> {''photo.png''}"
    by (simp add: slashPaths_def asciiLowerCase_def asciiLowerChar_def sanitizeFilename_def
          INVALID_FILENAME_CHARS_def)
  have j: "path_join slashPaths ''out'' ''x.png'' = ''out/x.png''"
      "path_join slashPaths ''out'' ''x (BBBBBBBB).png'' = ''out/x (BBBBBBBB).png''"
      "path_join slashPaths ''out''
         (sanitizeFilename ''Photo'' @ '' ('' @ toUpperCase slashPaths (take 8 ''abc123def456'')
            @ '').'' @ ''PNG'')
         = ''out/Photo (ABC123DE).PNG''"
    by (simp_all add: slashPaths_def asciiUpperCase_def asciiUpperChar_def sanitizeFilename_def
          INVALID_FILENAME_CHARS_def)
  note t = collision_determinism[of slashPaths "''out''" "''lib/1''" "''lib/2''" Copy
      "\<lparr>item_id = ''abc123def456'', name = ''Photo'', ext = ''PNG'', filePath = ''lib/3''\<rparr>"
      "{''photo.png''}"]
  from t b u j(1,2) have p: "map targetPath (toCreate (computeSyncPlan slashPaths
        [\<lparr>item_id = ''AAAAAAAA1111'', name = ''x'', ext = ''png'', filePath = ''lib/1''\<rparr>,
         \<lparr>item_id = ''BBBBBBBB2222'', name = ''x'', ext = ''png'', filePath = ''lib/2''\<rparr>]
        [] EntryFile ''out''))
      = [''out/x.png'', ''out/x (BBBBBBBB).png'']"
    by simp
  from t m l j(3) have g: "generateTargetPath slashPaths
        \<lparr>item_id = ''abc123def456'', name = ''Photo'', ext = ''PNG'', filePath = ''lib/3''\<rparr>
        ''out'' Copy {''photo.png''} = ''out/Photo (ABC123DE).PNG''"
    by simp
  from b u p l g show ?thesis by (intro conjI)
qed

text \<open>
  C3. Three new items with the same name, the same extension and the same first eight id
  characters: the second and the third both get the id-suffixed name, so two entries of
  \<open>toCreate\<close> have the same final path component (for every platform library: if the
  first path's component is not read back as \<open>x.png\<close>, the first two entries coincide
  instead).
\<close>

theorem suffixed_names_collide:
  "\<not> distinct (map (\<lambda>c. toLowerCase P (path_basename P (targetPath c)))
      (toCreate (computeSyncPlan P
        [\<lparr>item_id = ''AAAAAAAA1'', name = ''x'', ext = ''png'', filePath = f1\<rparr>,
         \<lparr>item_id = ''AAAAAAAA2'', name = ''x'', ext = ''png'', filePath = f2\<rparr>,
         \<lparr>item_id = ''AAAAAAAA3'', name = ''x'', ext = ''png'', filePath = f3\<rparr>]
        [] EntryFile targetDir)))"
  by (simp add: computeSyncPlan_def generateTargetPath_def Let_def sanitizeFilename_def
        INVALID_FILENAME_CHARS_def)

text \<open>The same plan with the slash-joining library, entry by entry.\<close>

lemma suffixed_names_example:
  "map targetPath (toCreate (computeSyncPlan slashPaths
        [\<lparr>item_id = ''AAAAAAAA1'', name = ''x'', ext = ''png'', filePath = ''lib/1''\<rparr>,
         \<lparr>item_id = ''AAAAAAAA2'', name = ''x'', ext = ''png'', filePath = ''lib/2''\<rparr>,
         \<lparr>item_id = ''AAAAAAAA3'', name = ''x'', ext = ''png'', filePath = ''lib/3''\<rparr>]
        [] EntryFile ''out''))
     = [''out/x.png'', ''out/x (AAAAAAAA).png'', ''out/x (AAAAAAAA).png'']"
  by (simp add: computeSyncPlan_def generateTargetPath_def Let_def sanitizeFilename_def
        slashPaths_def INVALID_FILENAME_CHARS_def asciiLowerCase_def asciiLowerChar_def
        asciiUpperCase_def asciiUpperChar_def)

section \<open>The plan executor\<close>

lemma executePlan_executeWith:
  "executePlan P ops fs plan mode idx options =
     executeWith (creationBody P ops mode options) ops fs plan idx"
  by (cases mode)
     (simp_all add: executePlan_def creationBody_def executeEntryDir_def executeEntryFile_def
        executeCopy_def)

lemma catchNull_isl: "catchNull r = None \<longleftrightarrow> isl r"
  by (cases r) (simp_all add: catchNull_def)

lemma stat_present:
  "\<not> isl (fs_stat ops fs p) \<Longrightarrow> catchNull (fs_stat ops fs p) = Some ()"
  by (cases "fs_stat ops fs p") (simp_all add: catchNull_def)

lemma stat_missing:
  "isl (fs_stat ops fs p) \<Longrightarrow> catchNull (fs_stat ops fs p) = None"
  by (cases "fs_stat ops fs p") (simp_all add: catchNull_def)

lemma body_Done:
  assumes "creationSucceeds P ops mode options fs c fs'"
  shows "creationBody P ops mode options fs c = (Done, fs')"
proof (cases mode)
  case EntryDir
  with assms show ?thesis
    by (simp add: creationSucceeds_def creationBody_def tryEntryDir_def)
next
  case EntryFile
  with assms show ?thesis
    by (simp add: creationSucceeds_def creationBody_def tryEntryFile_def sourceMissing_def
          stat_present)
next
  case Copy
  with assms have s: "\<not> isl (fs_stat ops fs (filePath (item c)))"
    and k: "(case fs_mkdir ops fs (path_dirname P (targetPath c)) of
                (Inl e, fsm) \<Rightarrow> False
              | (Inr u, fsm) \<Rightarrow>
                  fs_copyFile ops fsm (filePath (item c)) (targetPath c) = (Inr (), fs'))"
    by (simp_all add: creationSucceeds_def sourceMissing_def)
  obtain r fsm where mk: "fs_mkdir ops fs (path_dirname P (targetPath c)) = (r, fsm)"
    by (cases "fs_mkdir ops fs (path_dirname P (targetPath c))")
  with k obtain u where r: "r = Inr u"
    and cp: "fs_copyFile ops fsm (filePath (item c)) (targetPath c) = (Inr (), fs')"
    by (cases r) simp_all
  show ?thesis
    by (simp add: Copy creationBody_def tryCopy_def stat_present[OF s] mk r cp)
qed

lemma body_Skip:
  assumes "mode \<noteq> EntryDir" and "sourceMissing ops fs c"
  shows "creationBody P ops mode options fs c = (Skip, fs)"
  using assms
  by (cases mode)
     (simp_all add: creationBody_def tryEntryFile_def tryCopy_def sourceMissing_def stat_missing)

lemma body_Raised:
  assumes "creationRaises P ops mode options fs c e"
  shows "fst (creationBody P ops mode options fs c) = Raised e"
proof (cases mode)
  case EntryDir
  with assms show ?thesis
    by (cases "createEntrySymlink ops fs (libraryPath options) (item_id (item c)) (targetPath c)
            (case dirLinkType options of None \<Rightarrow> Junction | Some t \<Rightarrow> t)")
       (simp add: creationRaises_def creationBody_def tryEntryDir_def)
next
  case EntryFile
  with assms show ?thesis
    by (cases "createItemFileSymlink ops fs (filePath (item c)) (targetPath c)")
       (simp add: creationRaises_def creationBody_def tryEntryFile_def sourceMissing_def
          stat_present)
next
  case Copy
  with assms have s: "\<not> isl (fs_stat ops fs (filePath (item c)))"
    and k: "(case fs_mkdir ops fs (path_dirname P (targetPath c)) of
                (Inl e', fsm) \<Rightarrow> e' = e
              | (Inr u, fsm) \<Rightarrow>
                  fst (fs_copyFile ops fsm (filePath (item c)) (targetPath c)) = Inl e)"
    by (simp_all add: creationRaises_def sourceMissing_def)
  obtain r fsm where mk: "fs_mkdir ops fs (path_dirname P (targetPath c)) = (r, fsm)"
    by (cases "fs_mkdir ops fs (path_dirname P (targetPath c))")
  show ?thesis
  proof (cases r)
    case (Inl e')
    with k mk show ?thesis
      by (simp add: Copy creationBody_def tryCopy_def stat_present[OF s])
  next
    case (Inr u)
    obtain r2 fs2 where cp: "fs_copyFile ops fsm (filePath (item c)) (targetPath c) = (r2, fs2)"
      by (cases "fs_copyFile ops fsm (filePath (item c)) (targetPath c)")
    with k mk Inr show ?thesis
      by (simp add: Copy creationBody_def tryCopy_def stat_present[OF s])
  qed
qed

lemma executeWith_unfold:
  "executeWith body ops fs plan idx =
     (let st = foldl (createOne body)
                 (startResult plan idx (fst (executeRemovals ops fs (toRemove plan))),
                  snd (executeRemovals ops fs (toRemove plan))) (toCreate plan)
      in ((fst st)\<lparr>newIndex := foldl deleteFirstWithPath (newIndex (fst st)) (toRemove plan)\<rparr>,
          snd st))"
  by (simp add: executeWith_def startResult_def Let_def split: prod.split)

lemma removeOne_absent:
  "isl (fs_lstat ops (snd st) p) \<Longrightarrow> removeOne ops st p = st"
  by (cases st) (simp add: removeOne_def catchNull_isl[THEN iffD2])

lemma executeRemovals_append:
  "executeRemovals ops fs (xs @ ys) = foldl (removeOne ops) (executeRemovals ops fs xs) ys"
  by (simp add: executeRemovals_def)

lemma executeRemovals_skip_absent:
  assumes "isl (fs_lstat ops (snd (executeRemovals ops fs xs)) p)"
  shows "executeRemovals ops fs (xs @ p # ys) = executeRemovals ops fs (xs @ ys)"
  by (simp add: executeRemovals_append removeOne_absent[OF assms])

lemma removeOne_removed:
  "rm_removed (fst (removeOne ops st p)) =
     rm_removed (fst st)
       + (if \<not> isl (fs_lstat ops (snd st) p) \<and> \<not> isl (fst (fs_rm ops (snd st) p)) then 1 else 0)"
proof (cases st)
  case (Pair r fs)
  show ?thesis
  proof (cases "fs_lstat ops fs p")
    case (Inl e)
    with Pair show ?thesis by (simp add: removeOne_def catchNull_def)
  next
    case (Inr u)
    obtain x fs' where k: "fs_rm ops fs p = (x, fs')" by (cases "fs_rm ops fs p")
    with Pair Inr show ?thesis by (cases x) (simp_all add: removeOne_def catchNull_def)
  qed
qed

lemma creations_removed:
  "removed (fst (foldl (createOne body) st cs)) = removed (fst st)"
proof (induction cs arbitrary: st)
  case Nil
  then show ?case by simp
next
  case (Cons c cs)
  obtain r fs where st: "st = (r, fs)" by (cases st)
  obtain a fs' where b: "body fs c = (a, fs')" by (cases "body fs c")
  have "removed (fst (createOne body st c)) = removed (fst st)"
    by (cases a) (simp_all add: createOne_def st b)
  with Cons.IH[of "createOne body st c"] show ?case by simp
qed

lemma executePlan_removed:
  "removed (fst (executePlan P ops fs plan mode idx options)) =
     rm_removed (fst (executeRemovals ops fs (toRemove plan)))"
  by (simp add: executePlan_executeWith executeWith_unfold Let_def creations_removed startResult_def)

text \<open>
  C6. In entry-file or copy mode, a plan with two creations, no removal and no skipped
  item, one of whose source files is missing while the other entry is created, gives
  \<open>created = 1\<close>, \<open>skipped = 1\<close>, no error, and the previous index with the assignment of
  the created entry alone.
\<close>

theorem partial_failure_accounting:
  assumes "mode = EntryFile \<or> mode = Copy"
    and "toCreate plan = [c1, c2]" and "toRemove plan = []" and "plan_skipped plan = []"
    and "(creationSucceeds P ops mode options fs c1 fs' \<and> sourceMissing ops fs' c2 \<and> c = c1)
         \<or> (sourceMissing ops fs c1 \<and> creationSucceeds P ops mode options fs c2 fs' \<and> c = c2)"
  shows "executePlan P ops fs plan mode idx options =
           (\<lparr>created = 1, removed = 0, skipped = 1,
             newIndex = setProperty idx (item_id (item c)) (targetPath c), errors = []\<rparr>, fs')"
proof -
  from assms(1) have m: "mode \<noteq> EntryDir" by auto
  from assms(5) show ?thesis
  proof (elim disjE conjE)
    assume "creationSucceeds P ops mode options fs c1 fs'" "sourceMissing ops fs' c2" "c = c1"
    then show ?thesis
      using assms(2-4) body_Done[of P ops mode options fs c1 fs'] body_Skip[OF m, of ops fs' c2 P options]
      by (simp add: executePlan_executeWith executeWith_def executeRemovals_def createOne_def)
  next
    assume "sourceMissing ops fs c1" "creationSucceeds P ops mode options fs c2 fs'" "c = c2"
    then show ?thesis
      using assms(2-4) body_Done[of P ops mode options fs c2 fs'] body_Skip[OF m, of ops fs c1 P options]
      by (simp add: executePlan_executeWith executeWith_def executeRemovals_def createOne_def)
  qed
qed

lemma setProperty_fresh:
  "k \<notin> set (map fst obj) \<Longrightarrow> \<not> isArrayIndex k \<Longrightarrow> k \<noteq> ''__proto__'' \<Longrightarrow>
     setProperty obj k v = obj @ [(k, v)]"
  by (simp add: setProperty_def)

lemma ITEM1_plain: "\<not> isArrayIndex ''ITEM1''" "''ITEM1'' \<noteq> ''__proto__''"
  by (simp_all add: isArrayIndex_def isDigit_def)

theorem partial_failure_accounting_witness:
  "creationSucceeds slashPaths memFs EntryFile sampleOptions [''lib/a.png'']
      \<lparr>item = sampleA, targetPath = ''out/a.png''\<rparr> [''out/a.png'', ''lib/a.png'']
   \<and> sourceMissing memFs [''out/a.png'', ''lib/a.png''] \<lparr>item = sampleB, targetPath = ''out/b.png''\<rparr>
   \<and> executePlan slashPaths memFs [''lib/a.png''] samplePlan EntryFile [(''OLD'', ''out/o.png'')]
        sampleOptions =
       (\<lparr>created = 1, removed = 0, skipped = 1,
         newIndex = [(''OLD'', ''out/o.png''), (''ITEM1'', ''out/a.png'')], errors = []\<rparr>,
        [''out/a.png'', ''lib/a.png''])"
proof -
  have h1: "EntryFile = EntryFile \<or> EntryFile = Copy" by simp
  have h2: "toCreate samplePlan = [\<lparr>item = sampleA, targetPath = ''out/a.png''\<rparr>,
                  \<lparr>item = sampleB, targetPath = ''out/b.png''\<rparr>]"
    and h3: "toRemove samplePlan = []" and h4: "plan_skipped samplePlan = []"
    by (simp_all add: samplePlan_def)
  have s: "creationSucceeds slashPaths memFs EntryFile sampleOptions [''lib/a.png'']
      \<lparr>item = sampleA, targetPath = ''out/a.png''\<rparr> [''out/a.png'', ''lib/a.png'']"
    by (simp add: creationSucceeds_def sourceMissing_def memFs_def sampleA_def)
  have m: "sourceMissing memFs [''out/a.png'', ''lib/a.png''] \<lparr>item = sampleB, targetPath = ''out/b.png''\<rparr>"
    by (simp add: sourceMissing_def memFs_def sampleB_def)
  have k: "setProperty [(''OLD'', ''out/o.png'')] (item_id sampleA) ''out/a.png''
             = [(''OLD'', ''out/o.png''), (''ITEM1'', ''out/a.png'')]"
    by (simp add: setProperty_fresh ITEM1_plain sampleA_def)
  from partial_failure_accounting[OF h1 h2 h3 h4, of slashPaths memFs sampleOptions
      "[''lib/a.png'']" "[''out/a.png'', ''lib/a.png'']" "\<lparr>item = sampleA, targetPath = ''out/a.png''\<rparr>"
      "[(''OLD'', ''out/o.png'')]"] s m k
  show ?thesis by simp
qed

text \<open>
  C7. A path of \<open>toRemove\<close> for which the probe \<open>fs.lstat\<close> reports nothing, in the
  state reached after the paths before it, changes neither the counters, nor the errors,
  nor the filesystem: the run equals the run of the plan without that path. The count
  \<open>removed\<close> starts at zero and grows by one exactly at a path that the probe finds and
  \<open>fs.rm\<close> deletes.
\<close>

theorem removal_tolerance:
  "(isl (fs_lstat ops (snd (executeRemovals ops fs xs)) p) \<longrightarrow>
      toRemove plan = xs @ p # ys \<longrightarrow>
      (let r = executePlan P ops fs plan mode idx options;
           r' = executePlan P ops fs (plan\<lparr>toRemove := xs @ ys\<rparr>) mode idx options
       in removed (fst r) = removed (fst r') \<and> errors (fst r) = errors (fst r')
          \<and> created (fst r) = created (fst r') \<and> skipped (fst r) = skipped (fst r')
          \<and> snd r = snd r'))
   \<and> removed (fst (executePlan P ops fs (plan\<lparr>toRemove := []\<rparr>) mode idx options)) = 0
   \<and> removed (fst (executePlan P ops fs (plan\<lparr>toRemove := xs @ [p]\<rparr>) mode idx options)) =
       removed (fst (executePlan P ops fs (plan\<lparr>toRemove := xs\<rparr>) mode idx options))
       + (if \<not> isl (fs_lstat ops (snd (executeRemovals ops fs xs)) p)
             \<and> \<not> isl (fst (fs_rm ops (snd (executeRemovals ops fs xs)) p))
          then 1 else 0)"
proof (intro conjI impI)
  assume a: "isl (fs_lstat ops (snd (executeRemovals ops fs xs)) p)"
    and t: "toRemove plan = xs @ p # ys"
  show "let r = executePlan P ops fs plan mode idx options;
           r' = executePlan P ops fs (plan\<lparr>toRemove := xs @ ys\<rparr>) mode idx options
       in removed (fst r) = removed (fst r') \<and> errors (fst r) = errors (fst r')
          \<and> created (fst r) = created (fst r') \<and> skipped (fst r) = skipped (fst r')
          \<and> snd r = snd r'"
    by (simp add: executePlan_executeWith executeWith_unfold Let_def t
          executeRemovals_skip_absent[OF a] startResult_def)
next
  show "removed (fst (executePlan P ops fs (plan\<lparr>toRemove := []\<rparr>) mode idx options)) = 0"
    by (simp add: executePlan_removed executeRemovals_def)
next
  show "removed (fst (executePlan P ops fs (plan\<lparr>toRemove := xs @ [p]\<rparr>) mode idx options)) =
       removed (fst (executePlan P ops fs (plan\<lparr>toRemove := xs\<rparr>) mode idx options))
       + (if \<not> isl (fs_lstat ops (snd (executeRemovals ops fs xs)) p)
             \<and> \<not> isl (fst (fs_rm ops (snd (executeRemovals ops fs xs)) p))
          then 1 else 0)"
    by (simp add: executePlan_removed executeRemovals_append removeOne_removed)
qed

theorem removal_tolerance_witness:
  "isl (fs_lstat memFs (snd (executeRemovals memFs [''out/b.png''] [])) ''out/gone.png'')
   \<and> toRemove sampleRemovals = [] @ ''out/gone.png'' # [''out/b.png'']
   \<and> removed (fst (executePlan slashPaths memFs [''out/b.png''] sampleRemovals EntryFile
         [(''ITEM2'', ''out/b.png'')] sampleOptions)) =
       removed (fst (executePlan slashPaths memFs [''out/b.png'']
         (sampleRemovals\<lparr>toRemove := [] @ [''out/b.png'']\<rparr>) EntryFile
         [(''ITEM2'', ''out/b.png'')] sampleOptions))
   \<and> errors (fst (executePlan slashPaths memFs [''out/b.png''] sampleRemovals EntryFile
         [(''ITEM2'', ''out/b.png'')] sampleOptions)) =
       errors (fst (executePlan slashPaths memFs [''out/b.png'']
         (sampleRemovals\<lparr>toRemove := [] @ [''out/b.png'']\<rparr>) EntryFile
         [(''ITEM2'', ''out/b.png'')] sampleOptions))"
proof -
  have a: "isl (fs_lstat memFs (snd (executeRemovals memFs [''out/b.png''] [])) ''out/gone.png'')"
    by (simp add: executeRemovals_def memFs_def)
  have t: "toRemove sampleRemovals = [] @ ''out/gone.png'' # [''out/b.png'']"
    by (simp add: sampleRemovals_def)
  from removal_tolerance[of memFs "[''out/b.png'']" "[]" "''out/gone.png''" sampleRemovals
      "[''out/b.png'']" slashPaths EntryFile "[(''ITEM2'', ''out/b.png'')]" sampleOptions] a t
  show ?thesis by (simp add: Let_def)
qed

lemma createOne_errors_mono:
  "x \<in> set (errors (fst st)) \<Longrightarrow> x \<in> set (errors (fst (createOne body st c)))"
proof -
  assume x: "x \<in> set (errors (fst st))"
  obtain r fs where st: "st = (r, fs)" by (cases st)
  obtain a fs' where b: "body fs c = (a, fs')" by (cases "body fs c")
  from x show ?thesis by (cases a) (simp_all add: createOne_def st b)
qed

lemma creations_errors_mono:
  "x \<in> set (errors (fst st)) \<Longrightarrow> x \<in> set (errors (fst (foldl (createOne body) st cs)))"
  by (induction cs arbitrary: st) (simp_all add: createOne_errors_mono)

lemma createOne_raised:
  assumes "fst (body (snd st) c) = Raised e"
  shows "\<lparr>errItem = Some (item c), errPath = None, error = e\<rparr>
           \<in> set (errors (fst (createOne body st c)))"
proof -
  obtain r fs where st: "st = (r, fs)" by (cases st)
  obtain a fs' where b: "body fs c = (a, fs')" by (cases "body fs c")
  with assms st have "a = Raised e" by simp
  then show ?thesis by (simp add: createOne_def st b)
qed

lemma removeOne_errors_mono:
  "x \<in> set (rm_errors (fst st)) \<Longrightarrow> x \<in> set (rm_errors (fst (removeOne ops st p)))"
proof -
  assume x: "x \<in> set (rm_errors (fst st))"
  obtain r fs where st: "st = (r, fs)" by (cases st)
  show ?thesis
  proof (cases "fs_lstat ops fs p")
    case (Inl e)
    with x st show ?thesis by (simp add: removeOne_def catchNull_def)
  next
    case (Inr u)
    obtain y fs' where k: "fs_rm ops fs p = (y, fs')" by (cases "fs_rm ops fs p")
    with x st Inr show ?thesis by (cases y) (simp_all add: removeOne_def catchNull_def)
  qed
qed

lemma removals_errors_mono:
  "x \<in> set (rm_errors (fst st)) \<Longrightarrow> x \<in> set (rm_errors (fst (foldl (removeOne ops) st ps)))"
  by (induction ps arbitrary: st) (simp_all add: removeOne_errors_mono)

lemma removeOne_raised:
  assumes "\<not> isl (fs_lstat ops (snd st) p)" and "fst (fs_rm ops (snd st) p) = Inl e"
  shows "(p, e) \<in> set (rm_errors (fst (removeOne ops st p)))"
proof -
  obtain r fs where st: "st = (r, fs)" by (cases st)
  obtain y fs' where k: "fs_rm ops fs p = (y, fs')" by (cases "fs_rm ops fs p")
  from assms(1) st obtain u where l: "fs_lstat ops fs p = Inr u"
    by (cases "fs_lstat ops fs p") simp_all
  from assms(2) st k have "y = Inl e" by simp
  then show ?thesis by (simp add: removeOne_def st k l catchNull_def)
qed

lemma executePlan_errors:
  "errors (fst (executePlan P ops fs plan mode idx options)) =
     errors (fst (foldl (createOne (creationBody P ops mode options))
                 (startResult plan idx (fst (executeRemovals ops fs (toRemove plan))),
                  snd (executeRemovals ops fs (toRemove plan))) (toCreate plan)))"
  by (simp add: executePlan_executeWith executeWith_unfold Let_def)

lemma executePlan_state:
  "snd (executePlan P ops fs plan mode idx options) =
     snd (foldl (createOne (creationBody P ops mode options))
                 (startResult plan idx (fst (executeRemovals ops fs (toRemove plan))),
                  snd (executeRemovals ops fs (toRemove plan))) (toCreate plan))"
  by (simp add: executePlan_executeWith executeWith_unfold Let_def)

lemma startResult_toCreate [simp]:
  "startResult (plan\<lparr>toCreate := xs\<rparr>) idx rr = startResult plan idx rr"
  by (simp add: startResult_def)

text \<open>
  C8 (as amended). Every failure of a creation primitive and every failure of a deletion
  is recorded: an entry of \<open>toCreate\<close> whose primitive raises \<open>e\<close>, in the state reached
  after the removals and the entries before it, appears in \<open>errors\<close> keyed by its item,
  and a path of \<open>toRemove\<close> that the probe finds and whose \<open>fs.rm\<close> raises \<open>e'\<close> appears
  keyed by the path.
\<close>

theorem failures_recorded:
  "(toCreate plan = xs @ c # ys \<longrightarrow>
      creationRaises P ops mode options
        (snd (executePlan P ops fs (plan\<lparr>toCreate := xs\<rparr>) mode idx options)) c e \<longrightarrow>
      \<lparr>errItem = Some (item c), errPath = None, error = e\<rparr>
        \<in> set (errors (fst (executePlan P ops fs plan mode idx options))))
   \<and> (toRemove plan = ps @ p # qs \<longrightarrow>
      \<not> isl (fs_lstat ops (snd (executeRemovals ops fs ps)) p) \<longrightarrow>
      fst (fs_rm ops (snd (executeRemovals ops fs ps)) p) = Inl e' \<longrightarrow>
      \<lparr>errItem = None, errPath = Some p, error = e'\<rparr>
        \<in> set (errors (fst (executePlan P ops fs plan mode idx options))))"
proof (intro conjI impI)
  assume t: "toCreate plan = xs @ c # ys"
    and r: "creationRaises P ops mode options
        (snd (executePlan P ops fs (plan\<lparr>toCreate := xs\<rparr>) mode idx options)) c e"
  let ?body = "creationBody P ops mode options"
  let ?s0 = "(startResult plan idx (fst (executeRemovals ops fs (toRemove plan))),
                  snd (executeRemovals ops fs (toRemove plan)))"
  let ?s1 = "foldl (createOne ?body) ?s0 xs"
  have "snd (executePlan P ops fs (plan\<lparr>toCreate := xs\<rparr>) mode idx options) = snd ?s1"
    by (simp add: executePlan_state)
  with r have "fst (?body (snd ?s1) c) = Raised e" by (simp add: body_Raised)
  from createOne_raised[of ?body ?s1 c e, OF this]
  have "\<lparr>errItem = Some (item c), errPath = None, error = e\<rparr>
          \<in> set (errors (fst (createOne ?body ?s1 c)))" .
  from creations_errors_mono[OF this, of ?body ys]
  show "\<lparr>errItem = Some (item c), errPath = None, error = e\<rparr>
        \<in> set (errors (fst (executePlan P ops fs plan mode idx options)))"
    by (simp add: executePlan_errors t)
next
  assume t: "toRemove plan = ps @ p # qs"
    and l: "\<not> isl (fs_lstat ops (snd (executeRemovals ops fs ps)) p)"
    and r: "fst (fs_rm ops (snd (executeRemovals ops fs ps)) p) = Inl e'"
  from removeOne_raised[of ops "executeRemovals ops fs ps" p e', OF l r]
  have "(p, e') \<in> set (rm_errors (fst (removeOne ops (executeRemovals ops fs ps) p)))" .
  from removals_errors_mono[OF this, of ops qs]
  have "(p, e') \<in> set (rm_errors (fst (executeRemovals ops fs (toRemove plan))))"
    by (simp add: t executeRemovals_append)
  then have "\<lparr>errItem = None, errPath = Some p, error = e'\<rparr>
      \<in> set (errors (startResult plan idx (fst (executeRemovals ops fs (toRemove plan)))))"
    by (force simp: startResult_def)
  then show "\<lparr>errItem = None, errPath = Some p, error = e'\<rparr>
        \<in> set (errors (fst (executePlan P ops fs plan mode idx options)))"
    by (simp add: executePlan_errors creations_errors_mono)
qed

theorem failures_recorded_witness:
  "toCreate samplePlan2 = [] @ \<lparr>item = sampleA, targetPath = ''out/a.png''\<rparr> # []
   \<and> creationRaises slashPaths deniedRemoval EntryFile sampleOptions
        (snd (executePlan slashPaths deniedRemoval [''out/b.png'', ''lib/a.png'']
           (samplePlan2\<lparr>toCreate := []\<rparr>) EntryFile [(''ITEM2'', ''out/b.png'')] sampleOptions))
        \<lparr>item = sampleA, targetPath = ''out/a.png''\<rparr> EPERM
   \<and> \<lparr>errItem = Some sampleA, errPath = None, error = EPERM\<rparr>
        \<in> set (errors (fst (executePlan slashPaths deniedRemoval [''out/b.png'', ''lib/a.png'']
           samplePlan2 EntryFile [(''ITEM2'', ''out/b.png'')] sampleOptions)))
   \<and> toRemove samplePlan2 = [] @ ''out/b.png'' # []
   \<and> \<not> isl (fs_lstat deniedRemoval
          (snd (executeRemovals deniedRemoval [''out/b.png'', ''lib/a.png''] [])) ''out/b.png'')
   \<and> fst (fs_rm deniedRemoval
          (snd (executeRemovals deniedRemoval [''out/b.png'', ''lib/a.png''] [])) ''out/b.png'')
        = Inl EPERM
   \<and> \<lparr>errItem = None, errPath = Some ''out/b.png'', error = EPERM\<rparr>
        \<in> set (errors (fst (executePlan slashPaths deniedRemoval [''out/b.png'', ''lib/a.png'']
           samplePlan2 EntryFile [(''ITEM2'', ''out/b.png'')] sampleOptions)))"
proof -
  have c: "toCreate samplePlan2 = [] @ \<lparr>item = sampleA, targetPath = ''out/a.png''\<rparr> # []"
    and t: "toRemove samplePlan2 = [] @ ''out/b.png'' # []"
    by (simp_all add: samplePlan2_def)
  have s: "snd (executePlan slashPaths deniedRemoval [''out/b.png'', ''lib/a.png'']
           (samplePlan2\<lparr>toCreate := []\<rparr>) EntryFile [(''ITEM2'', ''out/b.png'')] sampleOptions)
           = [''out/b.png'', ''lib/a.png'']"
    by (simp add: executePlan_def executeEntryFile_def executeWith_def executeRemovals_def
        removeOne_def catchNull_def deniedRemoval_def memFs_def samplePlan2_def)
  have r: "creationRaises slashPaths deniedRemoval EntryFile sampleOptions
        (snd (executePlan slashPaths deniedRemoval [''out/b.png'', ''lib/a.png'']
           (samplePlan2\<lparr>toCreate := []\<rparr>) EntryFile [(''ITEM2'', ''out/b.png'')] sampleOptions))
        \<lparr>item = sampleA, targetPath = ''out/a.png''\<rparr> EPERM"
    unfolding s
    by (simp add: creationRaises_def sourceMissing_def deniedRemoval_def memFs_def sampleA_def)
  have l: "\<not> isl (fs_lstat deniedRemoval
          (snd (executeRemovals deniedRemoval [''out/b.png'', ''lib/a.png''] [])) ''out/b.png'')"
    and d: "fst (fs_rm deniedRemoval
          (snd (executeRemovals deniedRemoval [''out/b.png'', ''lib/a.png''] [])) ''out/b.png'')
        = Inl EPERM"
    by (simp_all add: executeRemovals_def deniedRemoval_def memFs_def)
  from failures_recorded[of samplePlan2 "[]" "\<lparr>item = sampleA, targetPath = ''out/a.png''\<rparr>" "[]"
      slashPaths deniedRemoval EntryFile sampleOptions "[''out/b.png'', ''lib/a.png'']"
      "[(''ITEM2'', ''out/b.png'')]" EPERM "[]" "''out/b.png''" "[]" EPERM] c t r l d
  show ?thesis by simp
qed

text \<open>
  A probe that is rejected for another reason than absence is caught as well: the path
  is taken as absent and nothing is recorded.
\<close>

theorem probe_failure_dropped:
  "fs_lstat deniedProbe [''out/b.png''] ''out/b.png'' = Inl EACCES
   \<and> errors (fst (executePlan slashPaths deniedProbe [''out/b.png'']
         \<lparr>toCreate = [], toRemove = [''out/b.png''], plan_skipped = []\<rparr> EntryFile
         [(''ITEM2'', ''out/b.png'')] sampleOptions)) = []"
  by (simp add: executePlan_def executeEntryFile_def executeWith_def executeRemovals_def
        removeOne_def catchNull_def deniedProbe_def memFs_def)

lemma createOne_counts:
  assumes "createOne body (r, fs) c = (r', fs')"
  shows "created r' + skipped r' + length (itemErrors (errors r'))
           = Suc (created r + skipped r + length (itemErrors (errors r)))
         \<and> skipped r \<le> skipped r'"
proof -
  obtain a fsa where b: "body fs c = (a, fsa)" by (cases "body fs c")
  with assms have "r' = account r c a" by (simp add: createOne_def)
  then show ?thesis by (cases a) (simp_all add: itemErrors_def)
qed

lemma creations_counts:
  "foldl (createOne body) (r, fs) cs = (r', fs') \<Longrightarrow>
     created r' + skipped r' + length (itemErrors (errors r'))
       = created r + skipped r + length (itemErrors (errors r)) + length cs
     \<and> skipped r \<le> skipped r'"
proof (induction cs arbitrary: r fs)
  case Nil
  then show ?case by simp
next
  case (Cons c cs)
  obtain r1 fs1 where s: "createOne body (r, fs) c = (r1, fs1)"
    by (cases "createOne body (r, fs) c")
  from Cons.prems s have "foldl (createOne body) (r1, fs1) cs = (r', fs')" by simp
  from Cons.IH[OF this] createOne_counts[OF s] show ?case by simp
qed

lemma creations_snoc:
  "foldl (createOne body) st (xs @ [c]) = createOne body (foldl (createOne body) st xs) c"
  by simp

text \<open>
  The counters account for every entry of \<open>toCreate\<close> exactly once: the created count,
  the skips added to those of the plan, and the item-keyed errors add up to the length of
  \<open>toCreate\<close>. Appending one entry to the plan adds one to \<open>created\<close> (and, when nothing is
  removed, assigns the entry in the index), or adds one to \<open>skipped\<close>, or appends one error
  keyed by the item; in the last two cases the index is the same.
\<close>

lemma creation_accounting:
  "length (plan_skipped plan) \<le> skipped (fst (executePlan P ops fs plan mode idx options))
   \<and> created (fst (executePlan P ops fs plan mode idx options))
       + (skipped (fst (executePlan P ops fs plan mode idx options)) - length (plan_skipped plan))
       + length (itemErrors (errors (fst (executePlan P ops fs plan mode idx options))))
     = length (toCreate plan)
   \<and> (let r0 = fst (executePlan P ops fs (plan\<lparr>toCreate := xs\<rparr>) mode idx options);
           r1 = fst (executePlan P ops fs (plan\<lparr>toCreate := xs @ [c]\<rparr>) mode idx options)
       in (created r1 = created r0 + 1 \<and> skipped r1 = skipped r0 \<and> errors r1 = errors r0
            \<and> (toRemove plan = [] \<longrightarrow>
                 newIndex r1 = setProperty (newIndex r0) (item_id (item c)) (targetPath c)))
          \<or> (created r1 = created r0 \<and> skipped r1 = skipped r0 + 1 \<and> errors r1 = errors r0
            \<and> newIndex r1 = newIndex r0)
          \<or> (\<exists>e. created r1 = created r0 \<and> skipped r1 = skipped r0
            \<and> errors r1 = errors r0 @ [\<lparr>errItem = Some (item c), errPath = None, error = e\<rparr>]
            \<and> newIndex r1 = newIndex r0))"
proof (intro conjI)
  let ?s0 = "(startResult plan idx (fst (executeRemovals ops fs (toRemove plan))),
                  snd (executeRemovals ops fs (toRemove plan)))"
  obtain r2 fs2 where b:
    "foldl (createOne (creationBody P ops mode options))
        (startResult plan idx (fst (executeRemovals ops fs (toRemove plan))),
         snd (executeRemovals ops fs (toRemove plan))) (toCreate plan) = (r2, fs2)"
    by (cases "foldl (createOne (creationBody P ops mode options)) ?s0 (toCreate plan)")
  have e: "fst (executePlan P ops fs plan mode idx options) =
             r2\<lparr>newIndex := foldl deleteFirstWithPath (newIndex r2) (toRemove plan)\<rparr>"
    by (simp add: executePlan_executeWith executeWith_unfold Let_def b)
  have z: "itemErrors (errors (startResult plan idx (fst (executeRemovals ops fs (toRemove plan))))) = []"
    by (simp add: itemErrors_def startResult_def filter_empty_conv)
  have k: "created (startResult plan idx (fst (executeRemovals ops fs (toRemove plan)))) = 0"
     "skipped (startResult plan idx (fst (executeRemovals ops fs (toRemove plan)))) = length (plan_skipped plan)"
    by (simp_all add: startResult_def)
  from creations_counts[OF b] z k
  have c: "created r2 + skipped r2 + length (itemErrors (errors r2))
       = length (plan_skipped plan) + length (toCreate plan)"
    and s: "length (plan_skipped plan) \<le> skipped r2" by simp_all
  from s show "length (plan_skipped plan) \<le> skipped (fst (executePlan P ops fs plan mode idx options))"
    by (simp add: e)
  from c s show "created (fst (executePlan P ops fs plan mode idx options))
       + (skipped (fst (executePlan P ops fs plan mode idx options)) - length (plan_skipped plan))
       + length (itemErrors (errors (fst (executePlan P ops fs plan mode idx options))))
     = length (toCreate plan)"
    by (simp add: e)
next
  let ?body = "creationBody P ops mode options"
  let ?s0 = "(startResult plan idx (fst (executeRemovals ops fs (toRemove plan))),
                  snd (executeRemovals ops fs (toRemove plan)))"
  obtain rw fsw where w: "foldl (createOne ?body) ?s0 xs = (rw, fsw)"
    by (cases "foldl (createOne ?body) ?s0 xs")
  obtain a fsa where b: "?body fsw c = (a, fsa)" by (cases "?body fsw c")
  have r0: "fst (executePlan P ops fs (plan\<lparr>toCreate := xs\<rparr>) mode idx options) =
           rw\<lparr>newIndex := foldl deleteFirstWithPath (newIndex rw) (toRemove plan)\<rparr>"
    by (simp add: executePlan_executeWith executeWith_unfold Let_def w)
  have r1: "fst (executePlan P ops fs (plan\<lparr>toCreate := xs @ [c]\<rparr>) mode idx options) =
           (account rw c a)\<lparr>newIndex :=
              foldl deleteFirstWithPath (newIndex (account rw c a)) (toRemove plan)\<rparr>"
    by (simp add: executePlan_executeWith executeWith_unfold Let_def w createOne_def b)
  show "let r0 = fst (executePlan P ops fs (plan\<lparr>toCreate := xs\<rparr>) mode idx options);
           r1 = fst (executePlan P ops fs (plan\<lparr>toCreate := xs @ [c]\<rparr>) mode idx options)
       in (created r1 = created r0 + 1 \<and> skipped r1 = skipped r0 \<and> errors r1 = errors r0
            \<and> (toRemove plan = [] \<longrightarrow>
                 newIndex r1 = setProperty (newIndex r0) (item_id (item c)) (targetPath c)))
          \<or> (created r1 = created r0 \<and> skipped r1 = skipped r0 + 1 \<and> errors r1 = errors r0
            \<and> newIndex r1 = newIndex r0)
          \<or> (\<exists>e. created r1 = created r0 \<and> skipped r1 = skipped r0
            \<and> errors r1 = errors r0 @ [\<lparr>errItem = Some (item c), errPath = None, error = e\<rparr>]
            \<and> newIndex r1 = newIndex r0)"
    unfolding Let_def r0 r1 by (cases a) simp_all
qed

section \<open>The index after a run\<close>

lemma set_deleteFirstWithPath: "set (deleteFirstWithPath idx p) \<subseteq> set idx"
  by (induction idx p rule: deleteFirstWithPath.induct) auto

lemma deleteFirstWithPath_keeps:
  "e \<in> set idx \<Longrightarrow> snd e \<noteq> p \<Longrightarrow> e \<in> set (deleteFirstWithPath idx p)"
  by (induction idx p rule: deleteFirstWithPath.induct) auto

lemma orderedIndex_delete:
  "orderedIndex idx \<Longrightarrow> orderedIndex (deleteFirstWithPath idx p)"
  unfolding orderedIndex_def
proof (induction idx p rule: deleteFirstWithPath.induct)
  case (1 p)
  then show ?case by simp
next
  case (2 k q rest p)
  then show ?case using set_deleteFirstWithPath[of rest p] by auto
qed

lemma set_insertOrdered: "set (insertOrdered idx k v) = insert (k, v) (set idx)"
  by (induction idx k v rule: insertOrdered.induct) auto

lemma set_setProperty: "set (setProperty idx k v) \<subseteq> insert (k, v) (set idx)"
  by (auto simp: setProperty_def set_insertOrdered)

lemma orderedIndex_insertOrdered:
  "orderedIndex idx \<Longrightarrow> isArrayIndex k \<Longrightarrow> orderedIndex (insertOrdered idx k v)"
  unfolding orderedIndex_def
proof (induction idx k v rule: insertOrdered.induct)
  case (1 k v)
  then show ?case by simp
next
  case (2 k' v' rest k v)
  show ?case
  proof (cases "isArrayIndex k' \<and> arrayIndexValue k' < arrayIndexValue k")
    case True
    with 2 show ?thesis by (auto simp: set_insertOrdered keyBefore_def)
  next
    case False
    have "keyBefore k (fst f)" if "f \<in> set ((k', v') # rest)" for f
    proof (cases "isArrayIndex (fst f)")
      case nf: False
      then show ?thesis by (simp add: keyBefore_def)
    next
      case tf: True
      have "isArrayIndex k' \<and> arrayIndexValue k' \<le> arrayIndexValue (fst f)"
      proof (cases "f = (k', v')")
        case True
        with tf show ?thesis by simp
      next
        case False
        with that have "f \<in> set rest" by simp
        with "2.prems"(1) have "keyBefore k' (fst f)" by auto
        with tf show ?thesis by (simp add: keyBefore_def)
      qed
      with False "2.prems"(2) tf show ?thesis by (simp add: keyBefore_def)
    qed
    with False "2.prems"(1) show ?thesis by auto
  qed
qed

lemma orderedIndex_setProperty:
  assumes "orderedIndex idx"
  shows "orderedIndex (setProperty idx k v)"
proof -
  have m: "orderedIndex (map (\<lambda>e. if fst e = k then (k, v) else e) idx)"
  proof -
    have "(\<lambda>x y. keyBefore (fst (if fst x = k then (k, v) else x))
                     (fst (if fst y = k then (k, v) else y)))
          = (\<lambda>x y. keyBefore (fst x) (fst y))"
      by (intro ext) simp
    with assms show ?thesis by (simp add: orderedIndex_def sorted_wrt_map)
  qed
  have a: "orderedIndex (idx @ [(k, v)])" if "\<not> isArrayIndex k"
    using assms that by (simp add: orderedIndex_def sorted_wrt_append keyBefore_def)
  from m a assms show ?thesis
    by (simp add: setProperty_def orderedIndex_insertOrdered)
qed

lemma insertOrdered_front:
  assumes "orderedIndex ((k', v') # rest)"
    and "\<not> (isArrayIndex k' \<and> arrayIndexValue k' < arrayIndexValue k)"
  shows "insertOrdered rest k v = (k, v) # rest"
proof (cases rest)
  case Nil
  then show ?thesis by simp
next
  case (Cons f rest')
  obtain k'' v'' where f: "f = (k'', v'')" by (cases f)
  from assms(1) Cons f have "keyBefore k' k''" by (simp add: orderedIndex_def)
  with assms(2) have n: "(isArrayIndex k'' \<and> arrayIndexValue k'' < arrayIndexValue k) = False"
    by (auto simp: keyBefore_def)
  show ?thesis by (simp add: Cons f n)
qed

lemma delete_insertOrdered:
  "orderedIndex idx \<Longrightarrow> v \<noteq> p \<Longrightarrow>
     deleteFirstWithPath (insertOrdered idx k v) p = insertOrdered (deleteFirstWithPath idx p) k v"
proof (induction idx k v rule: insertOrdered.induct)
  case (1 k v)
  then show ?case by simp
next
  case (2 k' v' rest k v)
  from "2.prems"(1) have r: "orderedIndex rest" by (simp add: orderedIndex_def)
  show ?case
  proof (cases "isArrayIndex k' \<and> arrayIndexValue k' < arrayIndexValue k")
    case True
    with 2 r show ?thesis by simp
  next
    case False
    then have n: "(isArrayIndex k' \<and> arrayIndexValue k' < arrayIndexValue k) = False" by simp
    show ?thesis
    proof (cases "v' = p")
      case True
      with "2.prems" insertOrdered_front[OF "2.prems"(1) False, of v] show ?thesis
        by (simp add: n)
    next
      case nv: False
      with "2.prems" show ?thesis by (simp add: n)
    qed
  qed
qed

lemma delete_update_in_place:
  "\<forall>e\<in>set idx. fst e = k \<longrightarrow> snd e \<noteq> p \<Longrightarrow> v \<noteq> p \<Longrightarrow>
     deleteFirstWithPath (map (\<lambda>e. if fst e = k then (k, v) else e) idx) p =
     map (\<lambda>e. if fst e = k then (k, v) else e) (deleteFirstWithPath idx p)"
  by (induction idx p rule: deleteFirstWithPath.induct) auto

lemma delete_snoc:
  "v \<noteq> p \<Longrightarrow> deleteFirstWithPath (idx @ [(k, v)]) p = deleteFirstWithPath idx p @ [(k, v)]"
  by (induction idx p rule: deleteFirstWithPath.induct) auto

lemma delete_setProperty:
  assumes "orderedIndex idx" and "v \<noteq> p" and "\<forall>e\<in>set idx. fst e = k \<longrightarrow> snd e \<noteq> p"
  shows "deleteFirstWithPath (setProperty idx k v) p = setProperty (deleteFirstWithPath idx p) k v"
proof (cases "k \<in> set (map fst idx)")
  case True
  then obtain e where e: "e \<in> set idx" "fst e = k" by auto
  with assms(3) have "snd e \<noteq> p" by simp
  with e have "e \<in> set (deleteFirstWithPath idx p)" by (simp add: deleteFirstWithPath_keeps)
  with e have "k \<in> set (map fst (deleteFirstWithPath idx p))" by force
  with True show ?thesis
    by (simp add: setProperty_def delete_update_in_place[OF assms(3) assms(2)])
next
  case False
  with set_deleteFirstWithPath[of idx p] have "k \<notin> set (map fst (deleteFirstWithPath idx p))"
    by auto
  with False show ?thesis
    by (simp add: setProperty_def delete_snoc[OF assms(2)] delete_insertOrdered[OF assms(1,2)])
qed

lemma delete_creations:
  "orderedIndex idx \<Longrightarrow> \<forall>c\<in>set cs. targetPath c \<noteq> p \<Longrightarrow>
   \<forall>c\<in>set cs. \<forall>e\<in>set idx. fst e = item_id (item c) \<longrightarrow> snd e \<noteq> p \<Longrightarrow>
     deleteFirstWithPath (foldl addCreated idx cs) p = foldl addCreated (deleteFirstWithPath idx p) cs"
proof (induction cs arbitrary: idx)
  case Nil
  then show ?case by simp
next
  case (Cons c cs)
  have o: "orderedIndex (addCreated idx c)"
    using Cons.prems(1) by (simp add: addCreated_def orderedIndex_setProperty)
  have s: "set (addCreated idx c) \<subseteq> insert (item_id (item c), targetPath c) (set idx)"
    by (simp add: addCreated_def set_setProperty)
  have "\<forall>c'\<in>set cs. \<forall>e\<in>set (addCreated idx c). fst e = item_id (item c') \<longrightarrow> snd e \<noteq> p"
  proof (intro ballI impI)
    fix c' e
    assume c': "c' \<in> set cs" and e: "e \<in> set (addCreated idx c)"
      and k: "fst e = item_id (item c')"
    from e s have "e = (item_id (item c), targetPath c) \<or> e \<in> set idx" by auto
    then show "snd e \<noteq> p"
    proof
      assume "e = (item_id (item c), targetPath c)"
      with Cons.prems(2) show ?thesis by simp
    next
      assume "e \<in> set idx"
      with Cons.prems(3) c' k show ?thesis by simp
    qed
  qed
  with Cons.IH[OF o] Cons.prems(2)
  have "deleteFirstWithPath (foldl addCreated (addCreated idx c) cs) p =
          foldl addCreated (deleteFirstWithPath (addCreated idx c) p) cs" by simp
  moreover have "deleteFirstWithPath (addCreated idx c) p = addCreated (deleteFirstWithPath idx p) c"
    unfolding addCreated_def using Cons.prems by (intro delete_setProperty) auto
  ultimately show ?case by simp
qed

lemma removals_creations_commute:
  "orderedIndex idx \<Longrightarrow> \<forall>c\<in>set cs. targetPath c \<notin> set rs \<Longrightarrow>
   \<forall>c\<in>set cs. \<forall>e\<in>set idx. fst e = item_id (item c) \<longrightarrow> snd e \<notin> set rs \<Longrightarrow>
     foldl deleteFirstWithPath (foldl addCreated idx cs) rs =
     foldl addCreated (foldl deleteFirstWithPath idx rs) cs"
proof (induction rs arbitrary: idx)
  case Nil
  then show ?case by simp
next
  case (Cons p rs)
  have d: "deleteFirstWithPath (foldl addCreated idx cs) p =
             foldl addCreated (deleteFirstWithPath idx p) cs"
    using Cons.prems by (intro delete_creations) auto
  have "foldl deleteFirstWithPath (foldl addCreated (deleteFirstWithPath idx p) cs) rs =
     foldl addCreated (foldl deleteFirstWithPath (deleteFirstWithPath idx p) rs) cs"
    using Cons.prems set_deleteFirstWithPath[of idx p]
    by (intro Cons.IH orderedIndex_delete) auto
  with d show ?case by simp
qed

lemma createOne_created:
  "created (fst (createOne body st c)) \<le> created (fst st) + 1
   \<and> (created (fst (createOne body st c)) = created (fst st) + 1 \<longrightarrow>
        newIndex (fst (createOne body st c)) = addCreated (newIndex (fst st)) c)"
proof -
  obtain r fs where st: "st = (r, fs)" by (cases st)
  obtain a fs' where b: "body fs c = (a, fs')" by (cases "body fs c")
  show ?thesis by (cases a) (simp_all add: createOne_def st b addCreated_def)
qed

lemma creations_created_le:
  "created (fst (foldl (createOne body) st cs)) \<le> created (fst st) + length cs"
proof (induction cs arbitrary: st)
  case Nil
  then show ?case by simp
next
  case (Cons c cs)
  from Cons.IH[of "createOne body st c"] createOne_created[of body st c]
  show ?case by simp
qed

lemma creations_all_created:
  "created (fst (foldl (createOne body) st cs)) = created (fst st) + length cs \<Longrightarrow>
     newIndex (fst (foldl (createOne body) st cs)) = foldl addCreated (newIndex (fst st)) cs"
proof (induction cs arbitrary: st)
  case Nil
  then show ?case by simp
next
  case (Cons c cs)
  let ?st1 = "createOne body st c"
  from Cons.prems creations_created_le[of body ?st1 cs] createOne_created[of body st c]
  have one: "created (fst ?st1) = created (fst st) + 1" by simp
  with createOne_created[of body st c]
  have ix: "newIndex (fst ?st1) = addCreated (newIndex (fst st)) c" by simp
  from Cons.prems one have "created (fst (foldl (createOne body) ?st1 cs))
      = created (fst ?st1) + length cs" by simp
  from Cons.IH[OF this] ix show ?case by simp
qed

lemma executePlan_newIndex:
  "newIndex (fst (executePlan P ops fs plan mode idx options)) =
     foldl deleteFirstWithPath
       (newIndex (fst (foldl (createOne (creationBody P ops mode options))
                 (startResult plan idx (fst (executeRemovals ops fs (toRemove plan))),
                  snd (executeRemovals ops fs (toRemove plan))) (toCreate plan))))
       (toRemove plan)"
  by (simp add: executePlan_executeWith executeWith_unfold Let_def)

lemma executePlan_created:
  "created (fst (executePlan P ops fs plan mode idx options)) =
     created (fst (foldl (createOne (creationBody P ops mode options))
                 (startResult plan idx (fst (executeRemovals ops fs (toRemove plan))),
                  snd (executeRemovals ops fs (toRemove plan))) (toCreate plan)))"
  by (simp add: executePlan_executeWith executeWith_unfold Let_def)

lemma executePlan_all_created:
  assumes "created (fst (executePlan P ops fs plan mode idx options)) = length (toCreate plan)"
  shows "newIndex (fst (executePlan P ops fs plan mode idx options)) =
           foldl deleteFirstWithPath (foldl addCreated idx (toCreate plan)) (toRemove plan)"
proof -
  let ?st = "(startResult plan idx (fst (executeRemovals ops fs (toRemove plan))),
                  snd (executeRemovals ops fs (toRemove plan)))"
  from assms have "created (fst (foldl (createOne (creationBody P ops mode options)) ?st
      (toCreate plan))) = created (fst ?st) + length (toCreate plan)"
    by (simp add: executePlan_created startResult_def)
  from creations_all_created[OF this] show ?thesis
    by (simp add: executePlan_newIndex startResult_def)
qed

text \<open>
  When every planned creation succeeds, the previous index lists its keys in enumeration
  order, and no path of \<open>toRemove\<close> is the target path of a creation or the previous path
  of an id being created, the index returned by \<open>executePlan\<close> is \<open>buildNewIndex\<close> of the
  previous index and the plan.
\<close>

lemma executor_index_agrees:
  assumes "orderedIndex idx"
    and "\<forall>c\<in>set (toCreate plan). targetPath c \<notin> set (toRemove plan)"
    and "\<forall>c\<in>set (toCreate plan). \<forall>e\<in>set idx.
           fst e = item_id (item c) \<longrightarrow> snd e \<notin> set (toRemove plan)"
    and "created (fst (executePlan P ops fs plan mode idx options)) = length (toCreate plan)"
  shows "newIndex (fst (executePlan P ops fs plan mode idx options)) = buildNewIndex idx plan"
  using removals_creations_commute[OF assms(1-3)]
  by (simp add: executePlan_all_created[OF assms(4)] buildNewIndex_def)

lemma sample_set:
  "setProperty [(''ITEM2'', ''out/b.png''), (''OLD'', ''out/o.png'')] ''ITEM1'' ''out/a.png'' =
     [(''ITEM2'', ''out/b.png''), (''OLD'', ''out/o.png''), (''ITEM1'', ''out/a.png'')]"
  "setProperty [(''ITEM2'', ''out/b.png'')] ''ITEM1'' ''out/a.png'' =
     [(''ITEM2'', ''out/b.png''), (''ITEM1'', ''out/a.png'')]"
  "setProperty [] ''ITEM1'' ''out/a.png'' = [(''ITEM1'', ''out/a.png'')]"
  by (simp_all add: setProperty_fresh ITEM1_plain)

section \<open>Planning again after a run\<close>

lemma setProperty_append_plain:
  assumes "k \<notin> set (map fst A)" and "plainKey k"
  shows "setProperty (A @ B) k v = A @ setProperty B k v"
proof -
  from assms(1) have "map (\<lambda>e. if fst e = k then (k, v) else e) A = A"
    by (intro map_idI) auto
  with assms show ?thesis by (simp add: setProperty_def plainKey_def)
qed

lemma creations_append:
  "\<forall>c\<in>set cs. item_id (item c) \<notin> set (map fst A) \<and> plainKey (item_id (item c)) \<Longrightarrow>
     foldl addCreated (A @ B) cs = A @ foldl addCreated B cs"
  by (induction cs arbitrary: B) (simp_all add: addCreated_def setProperty_append_plain)

lemma keys_update_in_place:
  "map fst (map (\<lambda>e. if fst e = k then (k, v) else e) B) = map fst B"
  by (induction B) auto

lemma keys_setProperty_plain:
  assumes "plainKey k"
  shows "set (map fst (setProperty B k v)) = insert k (set (map fst B))"
proof (cases "k \<in> set (map fst B)")
  case True
  then have "setProperty B k v = map (\<lambda>e. if fst e = k then (k, v) else e) B"
    by (simp add: setProperty_def)
  with True show ?thesis by (simp only: keys_update_in_place) auto
next
  case False
  with assms show ?thesis by (simp add: setProperty_def plainKey_def)
qed

lemma keys_creations:
  "\<forall>c\<in>set cs. plainKey (item_id (item c)) \<Longrightarrow>
     set (map fst (foldl addCreated B cs)) = set (map fst B) \<union> set (map (\<lambda>c. item_id (item c)) cs)"
proof (induction cs arbitrary: B)
  case Nil
  then show ?case by simp
next
  case (Cons c cs)
  from Cons.prems have "plainKey (item_id (item c))" by simp
  from keys_setProperty_plain[OF this] Cons.IH[of "addCreated B c"] Cons.prems
  show ?case by (simp add: addCreated_def)
qed

lemma delete_append_found:
  "p \<in> snd ` set A \<Longrightarrow> deleteFirstWithPath (A @ B) p = deleteFirstWithPath A p @ B"
  by (induction A p rule: deleteFirstWithPath.induct) auto

lemma delete_distinct:
  "distinct (map snd A) \<Longrightarrow> deleteFirstWithPath A p = filter (\<lambda>e. snd e \<noteq> p) A"
proof (induction A p rule: deleteFirstWithPath.induct)
  case (1 p)
  then show ?case by simp
next
  case (2 k q rest p)
  show ?case
  proof (cases "q = p")
    case True
    with "2.prems" have "\<forall>e\<in>set rest. snd e \<noteq> p" by auto
    then have "filter (\<lambda>e. snd e \<noteq> p) rest = rest" by (simp add: filter_id_conv)
    with True show ?thesis by simp
  next
    case False
    with 2 show ?thesis by simp
  qed
qed

lemma removals_append:
  "distinct (map snd A) \<Longrightarrow> distinct rs \<Longrightarrow> set rs \<subseteq> snd ` set A \<Longrightarrow>
     foldl deleteFirstWithPath (A @ B) rs = filter (\<lambda>e. snd e \<notin> set rs) A @ B"
proof (induction rs arbitrary: A)
  case Nil
  then show ?case by simp
next
  case (Cons p rs)
  let ?A' = "filter (\<lambda>e. snd e \<noteq> p) A"
  from Cons.prems have pA: "p \<in> snd ` set A" by simp
  have d: "deleteFirstWithPath (A @ B) p = ?A' @ B"
    by (simp add: delete_append_found[OF pA] delete_distinct[OF Cons.prems(1)])
  have dA: "distinct (map snd ?A')" using Cons.prems(1) by (simp add: distinct_map_filter)
  have sub: "set rs \<subseteq> snd ` set ?A'" using Cons.prems(2,3) by force
  from Cons.prems(2) have drs: "distinct rs" by simp
  have "filter (\<lambda>e. snd e \<notin> set rs) ?A' = filter (\<lambda>e. snd e \<notin> set (p # rs)) A"
    by (induction A) auto
  with Cons.IH[OF dA drs sub] d show ?case by simp
qed

text \<open>
  C2 (as amended). When the paths of the previous index are pairwise distinct, the ids to
  create are plain keys, and the run creates every entry of its plan, the plan computed
  from the same items against the returned index has nothing to create and nothing to
  remove.
\<close>

theorem replan_after_full_run:
  assumes "distinct (map snd idx)"
    and "\<forall>i\<in>set items. item_id i \<notin> set (map fst idx) \<longrightarrow> plainKey (item_id i)"
    and "created (fst (executePlan P ops fs (computeSyncPlan P items idx mode dir) mode idx options))
           = length (toCreate (computeSyncPlan P items idx mode dir))"
  shows "toCreate (computeSyncPlan P items
            (newIndex (fst (executePlan P ops fs (computeSyncPlan P items idx mode dir)
               mode idx options))) mode dir) = []
         \<and> toRemove (computeSyncPlan P items
            (newIndex (fst (executePlan P ops fs (computeSyncPlan P items idx mode dir)
               mode idx options))) mode dir) = []"
proof -
  let ?plan = "computeSyncPlan P items idx mode dir"
  let ?cs = "toCreate ?plan"
  let ?rs = "toRemove ?plan"
  let ?ids = "set (map item_id items)"
  let ?new = "newIndex (fst (executePlan P ops fs ?plan mode idx options))"
  let ?kept = "filter (\<lambda>e. snd e \<notin> set ?rs) idx"
  let ?N = "foldl addCreated [] ?cs"
  have cids: "map (\<lambda>c. item_id (item c)) ?cs =
        map item_id (filter (\<lambda>i. item_id i \<notin> set (map fst idx)) items)"
    using computeSyncPlan_toCreate[of P items idx mode dir, THEN arg_cong, of "map item_id"]
    by (simp add: comp_def)
  have cplain: "\<forall>c\<in>set ?cs. item_id (item c) \<notin> set (map fst idx) \<and> plainKey (item_id (item c))"
  proof
    fix c assume "c \<in> set ?cs"
    then have "item_id (item c) \<in> set (map (\<lambda>c. item_id (item c)) ?cs)" by force
    with cids have "item_id (item c) \<in>
        set (map item_id (filter (\<lambda>i. item_id i \<notin> set (map fst idx)) items))" by simp
    then obtain i where i: "i \<in> set items" "item_id i \<notin> set (map fst idx)"
      "item_id (item c) = item_id i" by auto
    with assms(2) have "plainKey (item_id i)" by simp
    with i show "item_id (item c) \<notin> set (map fst idx) \<and> plainKey (item_id (item c))"
      by simp
  qed
  have rs: "?rs = map snd (filter (\<lambda>e. fst e \<notin> ?ids) idx)"
    by (rule computeSyncPlan_toRemove)
  have drs: "distinct ?rs" using assms(1) by (simp add: rs distinct_map_filter)
  have srs: "set ?rs \<subseteq> snd ` set idx" by (auto simp: rs)
  have W: "foldl addCreated idx ?cs = idx @ ?N"
    using creations_append[of ?cs idx "[]"] cplain by simp
  have new: "?new = ?kept @ ?N"
    by (simp only: executePlan_all_created[OF assms(3)] W removals_append[OF assms(1) drs srs])
  have inj: "inj_on snd (set idx)" using assms(1) by (simp add: distinct_map)
  have kept: "e \<in> set ?kept \<longleftrightarrow> e \<in> set idx \<and> fst e \<in> ?ids" for e
  proof
    assume e: "e \<in> set ?kept"
    then have "e \<in> set idx" and "snd e \<notin> set ?rs" by simp_all
    then show "e \<in> set idx \<and> fst e \<in> ?ids" by (force simp: rs)
  next
    assume e: "e \<in> set idx \<and> fst e \<in> ?ids"
    have "snd e \<notin> set ?rs"
    proof
      assume "snd e \<in> set ?rs"
      then obtain e' where e': "e' \<in> set idx" "fst e' \<notin> ?ids" "snd e' = snd e"
        by (auto simp: rs)
      with inj e have "e' = e" by (auto dest: inj_onD)
      with e e' show False by simp
    qed
    with e show "e \<in> set ?kept" by simp
  qed
  have keysN: "set (map fst ?N) = set (map (\<lambda>c. item_id (item c)) ?cs)"
    using keys_creations[of ?cs "[]"] cplain by simp
  have keys: "set (map fst ?new) = ?ids"
  proof
    have "set (map fst ?kept) \<subseteq> ?ids" using kept by auto
    moreover have "set (map fst ?N) \<subseteq> ?ids" by (simp only: keysN cids) auto
    ultimately show "set (map fst ?new) \<subseteq> ?ids" by (simp only: new map_append set_append) simp
  next
    show "?ids \<subseteq> set (map fst ?new)"
    proof
      fix k assume "k \<in> ?ids"
      then obtain i where i: "i \<in> set items" "item_id i = k" by auto
      show "k \<in> set (map fst ?new)"
      proof (cases "k \<in> set (map fst idx)")
        case True
        then obtain e where e: "e \<in> set idx" "fst e = k" by auto
        from i e have "fst e \<in> ?ids" by force
        with e kept[of e] have "e \<in> set ?kept" by blast
        with \<open>fst e = k\<close> show ?thesis by (force simp: new)
      next
        case False
        with i have "k \<in> set (map item_id (filter (\<lambda>i. item_id i \<notin> set (map fst idx)) items))"
          by force
        with cids keysN show ?thesis by (simp add: new)
      qed
    qed
  qed
  have "map item (toCreate (computeSyncPlan P items ?new mode dir)) = []"
    using keys by (simp add: computeSyncPlan_toCreate)
  moreover have "toRemove (computeSyncPlan P items ?new mode dir) = []"
  proof -
    have "\<forall>e\<in>set ?new. fst e \<in> ?ids" using keys by force
    then show ?thesis by (simp add: computeSyncPlan_toRemove filter_empty_conv)
  qed
  ultimately show ?thesis by simp
qed

lemma sample_replan:
  "computeSyncPlan slashPaths [sampleA, sampleB] sampleIndex EntryFile ''out'' =
     \<lparr>toCreate = [\<lparr>item = sampleA, targetPath = ''out/a.png''\<rparr>], toRemove = [''out/o.png''],
      plan_skipped = []\<rparr>"
  by (simp add: computeSyncPlan_def generateTargetPath_def Let_def sanitizeFilename_def
        INVALID_FILENAME_CHARS_def sampleA_def sampleB_def slashPaths_def sampleIndex_def
        asciiLowerCase_def asciiLowerChar_def)

lemma sample_run:
  "executePlan slashPaths memFs [''lib/a.png'', ''out/o.png'', ''out/b.png'']
     \<lparr>toCreate = [\<lparr>item = sampleA, targetPath = ''out/a.png''\<rparr>], toRemove = [''out/o.png''],
      plan_skipped = []\<rparr> EntryFile sampleIndex sampleOptions =
   (\<lparr>created = 1, removed = 1, skipped = 0,
     newIndex = [(''ITEM2'', ''out/b.png''), (''ITEM1'', ''out/a.png'')], errors = []\<rparr>,
    [''out/a.png'', ''lib/a.png'', ''out/b.png''])"
  by (simp add: executePlan_def executeEntryFile_def executeWith_def executeRemovals_def
        removeOne_def catchNull_def createOne_def tryEntryFile_def memFs_def sampleA_def
        sampleIndex_def sample_set)

theorem replan_after_full_run_witness:
  "distinct (map snd sampleIndex)
   \<and> plainKey (item_id sampleA)
   \<and> created (fst (executePlan slashPaths memFs [''lib/a.png'', ''out/o.png'', ''out/b.png'']
        (computeSyncPlan slashPaths [sampleA, sampleB] sampleIndex EntryFile ''out'')
        EntryFile sampleIndex sampleOptions))
      = length (toCreate (computeSyncPlan slashPaths [sampleA, sampleB] sampleIndex EntryFile ''out''))
   \<and> toCreate (computeSyncPlan slashPaths [sampleA, sampleB]
        (newIndex (fst (executePlan slashPaths memFs [''lib/a.png'', ''out/o.png'', ''out/b.png'']
           (computeSyncPlan slashPaths [sampleA, sampleB] sampleIndex EntryFile ''out'')
           EntryFile sampleIndex sampleOptions))) EntryFile ''out'') = []
   \<and> toRemove (computeSyncPlan slashPaths [sampleA, sampleB]
        (newIndex (fst (executePlan slashPaths memFs [''lib/a.png'', ''out/o.png'', ''out/b.png'']
           (computeSyncPlan slashPaths [sampleA, sampleB] sampleIndex EntryFile ''out'')
           EntryFile sampleIndex sampleOptions))) EntryFile ''out'') = []"
proof -
  have d: "distinct (map snd sampleIndex)" by (simp add: sampleIndex_def)
  have k: "plainKey (item_id sampleA)" by (simp add: plainKey_def sampleA_def ITEM1_plain)
  have q: "\<forall>i\<in>set [sampleA, sampleB]. item_id i \<notin> set (map fst sampleIndex) \<longrightarrow>
      plainKey (item_id i)"
    using k by (simp add: sampleIndex_def sampleB_def)
  have c: "created (fst (executePlan slashPaths memFs [''lib/a.png'', ''out/o.png'', ''out/b.png'']
        (computeSyncPlan slashPaths [sampleA, sampleB] sampleIndex EntryFile ''out'')
        EntryFile sampleIndex sampleOptions))
      = length (toCreate (computeSyncPlan slashPaths [sampleA, sampleB] sampleIndex EntryFile ''out''))"
    by (simp add: sample_replan sample_run)
  from replan_after_full_run[OF d q c] d k c show ?thesis by simp
qed

text \<open>
  A run that skips an item (its source file is missing) returns an index without it, and
  the next plan creates it again.
\<close>

theorem replan_after_skip:
  "skipped (fst (executePlan slashPaths memFs [] (computeSyncPlan slashPaths [sampleA] [] EntryFile ''out'')
       EntryFile [] sampleOptions)) = 1
   \<and> newIndex (fst (executePlan slashPaths memFs [] (computeSyncPlan slashPaths [sampleA] [] EntryFile ''out'')
       EntryFile [] sampleOptions)) = []
   \<and> toCreate (computeSyncPlan slashPaths [sampleA]
        (newIndex (fst (executePlan slashPaths memFs []
           (computeSyncPlan slashPaths [sampleA] [] EntryFile ''out'') EntryFile [] sampleOptions)))
        EntryFile ''out'') = [\<lparr>item = sampleA, targetPath = ''out/a.png''\<rparr>]"
proof -
  have p: "computeSyncPlan slashPaths [sampleA] [] EntryFile ''out'' =
      \<lparr>toCreate = [\<lparr>item = sampleA, targetPath = ''out/a.png''\<rparr>], toRemove = [], plan_skipped = []\<rparr>"
    by (simp add: computeSyncPlan_def generateTargetPath_def Let_def sanitizeFilename_def
        INVALID_FILENAME_CHARS_def sampleA_def slashPaths_def)
  have r: "executePlan slashPaths memFs []
      \<lparr>toCreate = [\<lparr>item = sampleA, targetPath = ''out/a.png''\<rparr>], toRemove = [], plan_skipped = []\<rparr>
      EntryFile [] sampleOptions =
      (\<lparr>created = 0, removed = 0, skipped = 1, newIndex = [], errors = []\<rparr>, [])"
    by (simp add: executePlan_def executeEntryFile_def executeWith_def executeRemovals_def
        catchNull_def createOne_def tryEntryFile_def memFs_def sampleA_def)
  show ?thesis by (simp add: p r)
qed

text \<open>
  The other two conditions are needed as well. When a kept entry and a removed entry of
  the previous index share a path, the scan deletes the kept one, and the next plan
  still has a removal (and creates the kept item again).
\<close>

lemma replan_with_shared_path:
  "created (fst (executePlan slashPaths memFs [''out/x.png'']
       (computeSyncPlan slashPaths [sampleA] [(''ITEM1'', ''out/x.png''), (''OLD'', ''out/x.png'')]
          EntryFile ''out'')
       EntryFile [(''ITEM1'', ''out/x.png''), (''OLD'', ''out/x.png'')] sampleOptions))
     = length (toCreate (computeSyncPlan slashPaths [sampleA]
          [(''ITEM1'', ''out/x.png''), (''OLD'', ''out/x.png'')] EntryFile ''out''))
   \<and> newIndex (fst (executePlan slashPaths memFs [''out/x.png'']
       (computeSyncPlan slashPaths [sampleA] [(''ITEM1'', ''out/x.png''), (''OLD'', ''out/x.png'')]
          EntryFile ''out'')
       EntryFile [(''ITEM1'', ''out/x.png''), (''OLD'', ''out/x.png'')] sampleOptions))
     = [(''OLD'', ''out/x.png'')]
   \<and> toRemove (computeSyncPlan slashPaths [sampleA] [(''OLD'', ''out/x.png'')] EntryFile ''out'')
     = [''out/x.png'']"
proof -
  have p: "computeSyncPlan slashPaths [sampleA] [(''ITEM1'', ''out/x.png''), (''OLD'', ''out/x.png'')]
          EntryFile ''out'' = \<lparr>toCreate = [], toRemove = [''out/x.png''], plan_skipped = []\<rparr>"
    by (simp add: computeSyncPlan_def Let_def sampleA_def)
  have r: "executePlan slashPaths memFs [''out/x.png'']
       \<lparr>toCreate = [], toRemove = [''out/x.png''], plan_skipped = []\<rparr>
       EntryFile [(''ITEM1'', ''out/x.png''), (''OLD'', ''out/x.png'')] sampleOptions =
       (\<lparr>created = 0, removed = 1, skipped = 0, newIndex = [(''OLD'', ''out/x.png'')], errors = []\<rparr>, [])"
    by (simp add: executePlan_def executeEntryFile_def executeWith_def executeRemovals_def
        removeOne_def catchNull_def memFs_def)
  have q: "toRemove (computeSyncPlan slashPaths [sampleA] [(''OLD'', ''out/x.png'')] EntryFile ''out'')
     = [''out/x.png'']"
    by (simp add: computeSyncPlan_def Let_def sampleA_def)
  show ?thesis by (simp add: p r q)
qed

text \<open>
  When a new item takes the name a removed entry frees and its id is an array index,
  its entry is enumerated before the removed one, and the scan deletes it in place of
  the removed entry; \<open>buildNewIndex\<close> keeps it.
\<close>

lemma seven_index: "isArrayIndex ''7''"
  by (simp add: isArrayIndex_def isDigit_def arrayIndexValue_def digitValue_def)

lemma OLD_no_index: "isArrayIndex ''OLD'' = False"
  by (simp add: isArrayIndex_def isDigit_def)

lemma replan_with_index_key:
  "computeSyncPlan slashPaths [sampleSeven] [(''OLD'', ''out/a.png'')] EntryFile ''out'' =
     \<lparr>toCreate = [\<lparr>item = sampleSeven, targetPath = ''out/a.png''\<rparr>], toRemove = [''out/a.png''],
      plan_skipped = []\<rparr>
   \<and> executePlan slashPaths memFs [''lib/a.png'', ''out/a.png'']
       \<lparr>toCreate = [\<lparr>item = sampleSeven, targetPath = ''out/a.png''\<rparr>], toRemove = [''out/a.png''],
        plan_skipped = []\<rparr> EntryFile [(''OLD'', ''out/a.png'')] sampleOptions =
       (\<lparr>created = 1, removed = 1, skipped = 0, newIndex = [(''OLD'', ''out/a.png'')], errors = []\<rparr>,
        [''out/a.png'', ''lib/a.png''])
   \<and> buildNewIndex [(''OLD'', ''out/a.png'')]
       \<lparr>toCreate = [\<lparr>item = sampleSeven, targetPath = ''out/a.png''\<rparr>], toRemove = [''out/a.png''],
        plan_skipped = []\<rparr> = [(''7'', ''out/a.png'')]"
proof -
  have s: "setProperty [(''OLD'', ''out/a.png'')] ''7'' ''out/a.png'' =
             [(''7'', ''out/a.png''), (''OLD'', ''out/a.png'')]"
       "setProperty [] ''7'' ''out/a.png'' = [(''7'', ''out/a.png'')]"
    by (simp_all add: setProperty_def seven_index OLD_no_index)
  have p: "computeSyncPlan slashPaths [sampleSeven] [(''OLD'', ''out/a.png'')] EntryFile ''out'' =
     \<lparr>toCreate = [\<lparr>item = sampleSeven, targetPath = ''out/a.png''\<rparr>], toRemove = [''out/a.png''],
      plan_skipped = []\<rparr>"
    by (simp add: computeSyncPlan_def generateTargetPath_def Let_def sanitizeFilename_def
        INVALID_FILENAME_CHARS_def sampleSeven_def slashPaths_def asciiLowerCase_def asciiLowerChar_def)
  have r: "executePlan slashPaths memFs [''lib/a.png'', ''out/a.png'']
       \<lparr>toCreate = [\<lparr>item = sampleSeven, targetPath = ''out/a.png''\<rparr>], toRemove = [''out/a.png''],
        plan_skipped = []\<rparr> EntryFile [(''OLD'', ''out/a.png'')] sampleOptions =
       (\<lparr>created = 1, removed = 1, skipped = 0, newIndex = [(''OLD'', ''out/a.png'')], errors = []\<rparr>,
        [''out/a.png'', ''lib/a.png''])"
    by (simp add: executePlan_def executeEntryFile_def executeWith_def executeRemovals_def
        removeOne_def catchNull_def createOne_def tryEntryFile_def memFs_def sampleSeven_def s)
  have b: "buildNewIndex [(''OLD'', ''out/a.png'')]
       \<lparr>toCreate = [\<lparr>item = sampleSeven, targetPath = ''out/a.png''\<rparr>], toRemove = [''out/a.png''],
        plan_skipped = []\<rparr> = [(''7'', ''out/a.png'')]"
    by (simp add: buildNewIndex_def addCreated_def sampleSeven_def s)
  from p r b show ?thesis by (intro conjI)
qed

section \<open>The index repair runs after the creations\<close>

text \<open>
  On a plan computed from the previous index, with pairwise distinct paths in that index
  and plain keys as new ids, the executor and \<open>buildNewIndex\<close> return the same index
  when every creation succeeds, also when a new item takes the name of a removed entry:
  the removed entry comes first in the enumeration, and the scan finds it.
\<close>

lemma computed_creations_plain:
  assumes "\<forall>i\<in>set items. item_id i \<notin> set (map fst idx) \<longrightarrow> plainKey (item_id i)"
  shows "\<forall>c\<in>set (toCreate (computeSyncPlan P items idx mode dir)).
           item_id (item c) \<notin> set (map fst idx) \<and> plainKey (item_id (item c))"
proof
  fix c assume "c \<in> set (toCreate (computeSyncPlan P items idx mode dir))"
  then have "item c \<in> set (map item (toCreate (computeSyncPlan P items idx mode dir)))"
    by simp
  then have "item c \<in> set items" and "item_id (item c) \<notin> set (map fst idx)"
    by (simp_all add: computeSyncPlan_toCreate)
  with assms show "item_id (item c) \<notin> set (map fst idx) \<and> plainKey (item_id (item c))"
    by simp
qed

lemma executor_agrees_on_computed_plans:
  assumes "distinct (map snd idx)"
    and "\<forall>i\<in>set items. item_id i \<notin> set (map fst idx) \<longrightarrow> plainKey (item_id i)"
    and "created (fst (executePlan P ops fs (computeSyncPlan P items idx mode dir) mode idx options))
           = length (toCreate (computeSyncPlan P items idx mode dir))"
  shows "newIndex (fst (executePlan P ops fs (computeSyncPlan P items idx mode dir) mode idx options))
           = buildNewIndex idx (computeSyncPlan P items idx mode dir)"
proof -
  let ?plan = "computeSyncPlan P items idx mode dir"
  let ?cs = "toCreate ?plan"
  let ?rs = "toRemove ?plan"
  let ?kept = "filter (\<lambda>e. snd e \<notin> set ?rs) idx"
  let ?N = "foldl addCreated [] ?cs"
  have cplain: "\<forall>c\<in>set ?cs. item_id (item c) \<notin> set (map fst idx) \<and> plainKey (item_id (item c))"
    using assms(2) by (rule computed_creations_plain)
  have rs: "?rs = map snd (filter (\<lambda>e. fst e \<notin> set (map item_id items)) idx)"
    by (rule computeSyncPlan_toRemove)
  have drs: "distinct ?rs" using assms(1) by (simp add: rs distinct_map_filter)
  have srs: "set ?rs \<subseteq> snd ` set idx" by (auto simp: rs)
  have W: "foldl addCreated idx ?cs = idx @ ?N"
    using creations_append[of ?cs idx "[]"] cplain by simp
  have L: "foldl deleteFirstWithPath (foldl addCreated idx ?cs) ?rs = ?kept @ ?N"
    by (simp only: W removals_append[OF assms(1) drs srs])
  have K: "foldl deleteFirstWithPath idx ?rs = ?kept"
    using removals_append[OF assms(1) drs srs, of "[]"] by simp
  have "\<forall>c\<in>set ?cs. item_id (item c) \<notin> set (map fst ?kept) \<and> plainKey (item_id (item c))"
    using cplain by auto
  from creations_append[OF this, of "[]"] have R: "foldl addCreated ?kept ?cs = ?kept @ ?N"
    by simp
  show ?thesis
    by (simp only: executePlan_all_created[OF assms(3)] L buildNewIndex_def K R)
qed

text \<open>
  C9. A new item whose id is the array index \<open>7\<close> takes the name that the removed entry
  \<open>OLD\<close> frees. Every operation succeeds. The executor assigns \<open>7\<close> in the working index,
  where it is enumerated before \<open>OLD\<close>, and its scan for the removed path then deletes
  the entry it has just created and keeps the stale one; \<open>buildNewIndex\<close> returns the
  index with the created entry alone. The two differ.
\<close>

theorem executor_drops_created_entry:
  "toCreate (computeSyncPlan slashPaths [sampleSeven] [(''OLD'', ''out/a.png'')] EntryFile ''out'')
     = [\<lparr>item = sampleSeven, targetPath = ''out/a.png''\<rparr>]
   \<and> toRemove (computeSyncPlan slashPaths [sampleSeven] [(''OLD'', ''out/a.png'')] EntryFile ''out'')
     = [''out/a.png'']
   \<and> fst (executePlan slashPaths memFs [''lib/a.png'', ''out/a.png'']
        (computeSyncPlan slashPaths [sampleSeven] [(''OLD'', ''out/a.png'')] EntryFile ''out'')
        EntryFile [(''OLD'', ''out/a.png'')] sampleOptions)
     = \<lparr>created = 1, removed = 1, skipped = 0, newIndex = [(''OLD'', ''out/a.png'')],
        errors = []\<rparr>
   \<and> buildNewIndex [(''OLD'', ''out/a.png'')]
        (computeSyncPlan slashPaths [sampleSeven] [(''OLD'', ''out/a.png'')] EntryFile ''out'')
     = [(''7'', ''out/a.png'')]
   \<and> newIndex (fst (executePlan slashPaths memFs [''lib/a.png'', ''out/a.png'']
        (computeSyncPlan slashPaths [sampleSeven] [(''OLD'', ''out/a.png'')] EntryFile ''out'')
        EntryFile [(''OLD'', ''out/a.png'')] sampleOptions))
     \<noteq> buildNewIndex [(''OLD'', ''out/a.png'')]
        (computeSyncPlan slashPaths [sampleSeven] [(''OLD'', ''out/a.png'')] EntryFile ''out'')"
  using replan_with_index_key by simp

text \<open>
  C10. In the same run the entry of item \<open>7\<close> is counted in \<open>created\<close>, nothing is skipped
  and no error is recorded, and yet the returned index has no entry for the id \<open>7\<close>: the
  created entry is accounted for in the counters and missing from \<open>newIndex\<close>.
\<close>

theorem created_entry_not_indexed:
  "length (toCreate (computeSyncPlan slashPaths [sampleSeven] [(''OLD'', ''out/a.png'')]
      EntryFile ''out'')) = 1
   \<and> created (fst (executePlan slashPaths memFs [''lib/a.png'', ''out/a.png'']
        (computeSyncPlan slashPaths [sampleSeven] [(''OLD'', ''out/a.png'')] EntryFile ''out'')
        EntryFile [(''OLD'', ''out/a.png'')] sampleOptions)) = 1
   \<and> skipped (fst (executePlan slashPaths memFs [''lib/a.png'', ''out/a.png'']
        (computeSyncPlan slashPaths [sampleSeven] [(''OLD'', ''out/a.png'')] EntryFile ''out'')
        EntryFile [(''OLD'', ''out/a.png'')] sampleOptions)) = 0
   \<and> errors (fst (executePlan slashPaths memFs [''lib/a.png'', ''out/a.png'']
        (computeSyncPlan slashPaths [sampleSeven] [(''OLD'', ''out/a.png'')] EntryFile ''out'')
        EntryFile [(''OLD'', ''out/a.png'')] sampleOptions)) = []
   \<and> item_id sampleSeven \<notin> set (map fst (newIndex (fst (executePlan slashPaths memFs
        [''lib/a.png'', ''out/a.png'']
        (computeSyncPlan slashPaths [sampleSeven] [(''OLD'', ''out/a.png'')] EntryFile ''out'')
        EntryFile [(''OLD'', ''out/a.png'')] sampleOptions))))"
  using replan_with_index_key by (simp add: sampleSeven_def)

end
